theory Spec2Isabelle
  imports Main "HOL-Library.Sublist"
begin

section \<open>The organizer pool of \<^verbatim>\<open>GoogleCalendarService\<close> (src/example-code.ts)\<close>

text \<open>
  The service keeps no state of its own between calls: which organizer is current for a
  category, the external attendees counted against it, and the blocked organizers all
  live in the cache service. The development embeds the five methods that read and write
  that state (\<^verbatim>\<open>cacheOrganizerAndAttendee\<close>, \<^verbatim>\<open>fetchCurrentOrganizer\<close>,
  \<^verbatim>\<open>fetchAvailableOrganizers\<close>, \<^verbatim>\<open>isOrganizerAvailable\<close>, \<^verbatim>\<open>blockOrganizer\<close>), the
  helpers they call, and the lines of \<^verbatim>\<open>createEvent\<close> that pick the organizer.

  Every method is a function of the cache that returns the cache it leaves behind. An
  exception is a value: a method returns \<open>(Inl e, cache)\<close> when it throws \<open>e\<close>, and the
  cache of that pair holds the writes made before the throw. The clock (\<^verbatim>\<open>new Date()\<close>) is
  the parameter \<open>now\<close>, in milliseconds since the epoch: one value for the whole of a call,
  also where a call reads the clock more than once (the loop over the candidates, the choice
  of the organizer), so the clock stands still while a request is served.
\<close>

subsection \<open>Run-time values\<close>

text \<open>
  A variable of TypeScript type \<^verbatim>\<open>string\<close> holds a string, \<^verbatim>\<open>null\<close> or
  \<^verbatim>\<open>undefined\<close> at run time; the code tells them apart (\<^verbatim>\<open>organizer: string = null\<close>,
  \<^verbatim>\<open>?.organizer\<close>, \<^verbatim>\<open>!organizer\<close>).
\<close>

datatype jsstr = Undefined | Null | Str string

text \<open>JavaScript's truthiness: the empty string, \<^verbatim>\<open>null\<close> and \<^verbatim>\<open>undefined\<close> are falsy.\<close>

fun truthy :: "jsstr \<Rightarrow> bool" where
  "truthy (Str s) = (s \<noteq> [])"
| "truthy Null = False"
| "truthy Undefined = False"

text \<open>A value inside a template literal, \<^verbatim>\<open>`${v}`\<close>.\<close>

fun template :: "jsstr \<Rightarrow> string" where
  "template (Str s) = s"
| "template Null = ''null''"
| "template Undefined = ''undefined''"

text \<open>A parameter declared \<^verbatim>\<open>p: string = null\<close>: an \<^verbatim>\<open>undefined\<close> argument becomes \<^verbatim>\<open>null\<close>.\<close>

fun default_null :: "jsstr \<Rightarrow> jsstr" where
  "default_null Undefined = Null"
| "default_null v = v"

text \<open>\<^verbatim>\<open>String.prototype.includes\<close>: \<open>sub\<close> occurs somewhere in \<open>s\<close>.\<close>

fun str_includes :: "string \<Rightarrow> string \<Rightarrow> bool" where
  "str_includes [] sub = (sub = [])"
| "str_includes (c # cs) sub = (prefix sub (c # cs) \<or> str_includes cs sub)"

text \<open>
  A JavaScript \<^verbatim>\<open>Set\<close> of strings keeps its elements in insertion order, each once;
  \<^verbatim>\<open>Array.from\<close> reads them back in that order. The set is the list of its elements.
\<close>

definition Set_add :: "string list \<Rightarrow> string \<Rightarrow> string list" where
  "Set_add s x = (if x \<in> set s then s else s @ [x])"

definition new_Set :: "string list \<Rightarrow> string list" where
  "new_Set xs = foldl Set_add [] xs"

datatype error = SyntaxError | TypeError

subsection \<open>Data transfer objects\<close>

text \<open>
  Modelled from the spec: \<^verbatim>\<open>GoogleCalendarAttendeeDto\<close> (dto/google-calendar-attendee.dto is
  not among the sources) is an attendee of an event; the pool reads its address,
  \<^verbatim>\<open>attendee.email\<close>, a string.
\<close>

record GoogleCalendarAttendeeDto =
  email :: string

text \<open>
  Modelled from the spec: \<^verbatim>\<open>GoogleCalendarCacheValueDto\<close> (dto/google-calendar-cache-value.dto
  is not among the sources) is the PoolState of a category, the current organizer and the
  external attendee addresses counted against it; \<^verbatim>\<open>fromPayload(organizer, uniqueAttendees)\<close>
  builds it from the two fields. A field can be \<^verbatim>\<open>undefined\<close> (\<open>None\<close> for the array):
  \<^verbatim>\<open>JSON.stringify\<close> leaves such a field out and a read of it from the parsed object is
  \<^verbatim>\<open>undefined\<close> again.
\<close>

record GoogleCalendarCacheValueDto =
  organizer :: jsstr
  uniqueAttendees :: "string list option"

definition fromPayload :: "jsstr \<Rightarrow> string list option \<Rightarrow> GoogleCalendarCacheValueDto" where
  "fromPayload org atts = \<lparr>organizer = org, uniqueAttendees = atts\<rparr>"

subsection \<open>The cache service\<close>

text \<open>
  The cache holds strings. The code does two things with a string it reads: it tests it for
  truthiness and it hands it to \<^verbatim>\<open>JSON.parse\<close>. A stored string is therefore represented
  by what these two make of it: the empty string, a non-empty string that \<^verbatim>\<open>JSON.parse\<close>
  rejects (\<open>Malformed\<close>), or a string that parses to a value. The values are the two
  kinds the service writes: the string \<^verbatim>\<open>JSON.stringify(date)\<close>, represented by the time
  \<^verbatim>\<open>new Date(s).getTime()\<close> of the date it spells, and a cache value object.
\<close>

datatype json = DateString int | CacheValue GoogleCalendarCacheValueDto

datatype cache_text = EmptyText | Malformed | Json json

text \<open>An entry is the stored string and the time-to-live, in seconds, it was put with.\<close>

type_synonym cache = "string \<rightharpoonup> cache_text \<times> nat"

text \<open>
  Modelled from the spec: \<^verbatim>\<open>RskCacheService\<close> (rsk-cache/rsk-cache.service is not among the
  sources) is the durable cache store, \<^verbatim>\<open>get(key) \<rightarrow> bytes|absent\<close>,
  \<^verbatim>\<open>put(key, bytes, ttlSeconds) \<rightarrow> void\<close>, \<^verbatim>\<open>delete(key) \<rightarrow> void\<close>. An absent entry reads as
  \<^verbatim>\<open>null\<close> (\<open>None\<close>). The store's own eviction is not a step of the service: an entry stays
  until it is overwritten or deleted, whatever its time-to-live.
\<close>

definition rskCacheService_get :: "cache \<Rightarrow> string \<Rightarrow> cache_text option" where
  "rskCacheService_get c key = map_option fst (c key)"

definition rskCacheService_put :: "cache \<Rightarrow> string \<Rightarrow> cache_text \<Rightarrow> nat \<Rightarrow> cache" where
  "rskCacheService_put c key v ttl = c(key \<mapsto> (v, ttl))"

definition rskCacheService_delete :: "cache \<Rightarrow> string \<Rightarrow> cache" where
  "rskCacheService_delete c key = c(key := None)"

text \<open>\<^verbatim>\<open>if (cacheValue)\<close> on what \<^verbatim>\<open>get\<close> returned: \<^verbatim>\<open>null\<close> and the empty string are falsy.\<close>

fun text_truthy :: "cache_text option \<Rightarrow> bool" where
  "text_truthy None = False"
| "text_truthy (Some EmptyText) = False"
| "text_truthy (Some _) = True"

text \<open>
  \<^verbatim>\<open>deserializeCacheValue\<close> is \<^verbatim>\<open>JSON.parse\<close> with nothing around it. \<^verbatim>\<open>JSON.parse(null)\<close>
  is \<^verbatim>\<open>null\<close> (the argument is converted to the string \<^verbatim>\<open>null\<close> first), the result
  \<open>None\<close> here; a string that is not JSON raises SyntaxError.
\<close>

fun deserializeCacheValue :: "cache_text option \<Rightarrow> error + json option" where
  "deserializeCacheValue None = Inr None"
| "deserializeCacheValue (Some EmptyText) = Inl SyntaxError"
| "deserializeCacheValue (Some Malformed) = Inl SyntaxError"
| "deserializeCacheValue (Some (Json v)) = Inr (Some v)"

text \<open>\<^verbatim>\<open>serializeCacheValue\<close> is \<^verbatim>\<open>JSON.stringify\<close>: the string that parses back to the value.\<close>

definition serializeCacheValue :: "json \<Rightarrow> cache_text" where
  "serializeCacheValue data = Json data"

text \<open>
  Property reads on a parsed value. A string has no property \<^verbatim>\<open>organizer\<close> or
  \<^verbatim>\<open>uniqueAttendees\<close>: the read is \<^verbatim>\<open>undefined\<close>.
\<close>

fun json_organizer :: "json \<Rightarrow> jsstr" where
  "json_organizer (CacheValue d) = organizer d"
| "json_organizer (DateString t) = Undefined"

fun json_uniqueAttendees :: "json \<Rightarrow> string list option" where
  "json_uniqueAttendees (CacheValue d) = uniqueAttendees d"
| "json_uniqueAttendees (DateString t) = None"

text \<open>\<^verbatim>\<open>v?.organizer\<close>: \<^verbatim>\<open>undefined\<close> when \<open>v\<close> is \<^verbatim>\<open>null\<close> or \<^verbatim>\<open>undefined\<close>.\<close>

fun optional_organizer :: "json option \<Rightarrow> jsstr" where
  "optional_organizer None = Undefined"
| "optional_organizer (Some v) = json_organizer v"

text \<open>
  \<^verbatim>\<open>new Date(v).getTime()\<close> for a parsed value: the time of a date string, 0 for
  \<^verbatim>\<open>null\<close>, and \<^verbatim>\<open>NaN\<close> (\<open>None\<close>) for an object, which is an Invalid Date.
\<close>

fun new_Date :: "json option \<Rightarrow> int option" where
  "new_Date None = Some 0"
| "new_Date (Some (DateString t)) = Some t"
| "new_Date (Some (CacheValue d)) = None"

subsection \<open>The service\<close>

text \<open>
  The configuration the constructor reads: the candidate organizers of the two categories
  and the limit of external attendees (\<^verbatim>\<open>GCAL_EXT_ATTENDEE_LIMIT\<close>, 2000 by default).
\<close>

record GoogleCalendarService =
  prakerjaOrganizers :: "string list"
  nonPrakerjaOrganizers :: "string list"
  externalAttendeesLimit :: int

definition gcalMainKey :: string where
  "gcalMainKey = ''google-calendar''"

definition gcalBlockKey :: string where
  "gcalBlockKey = ''google-calendar-blocked-organizer''"

text \<open>The key of a category, \<^verbatim>\<open>`${this.gcalMainKey}-${keyType}`\<close>.\<close>

definition mainKey :: "bool \<Rightarrow> string" where
  "mainKey isPrakerja = gcalMainKey @ ''-'' @ (if isPrakerja then ''prakerja'' else ''non-prakerja'')"

text \<open>The key of a blocked organizer, \<^verbatim>\<open>`${this.gcalBlockKey}:${organizer}`\<close>.\<close>

definition blockKey :: "jsstr \<Rightarrow> string" where
  "blockKey org = gcalBlockKey @ '':'' @ template org"

text \<open>The attendee is outside the organization: \<^verbatim>\<open>!attendee.email.includes('sempurna.com')\<close>.\<close>

definition isExternal :: "GoogleCalendarAttendeeDto \<Rightarrow> bool" where
  "isExternal attendee = (\<not> str_includes (email attendee) ''sempurna.com'')"

text \<open>
  \<^verbatim>\<open>cacheOrganizerAndAttendee\<close> (lines 359 to 394). With a cached value, the organizer and
  the attendees are the cached ones, and the new external addresses are added only when the
  cached organizer is truthy, equals the requested one and the cached array is shorter than
  the limit; there is no other branch, so in every other case the cached value is put back
  as it was read. Without a cached value the requested organizer starts a new array. The
  length of an \<^verbatim>\<open>undefined\<close> array is read only after the two tests before it hold, and
  throws TypeError.
\<close>

definition addExternal :: "string list \<Rightarrow> GoogleCalendarAttendeeDto list \<Rightarrow> string list" where
  "addExternal uniqueAttendeesSet attendees =
     foldl (\<lambda>s attendee. if isExternal attendee then Set_add s (email attendee) else s)
       uniqueAttendeesSet attendees"

definition oneMonth :: nat where
  "oneMonth = 30 * 24 * 60 * 60"

definition cacheOrganizerAndAttendee ::
  "GoogleCalendarService \<Rightarrow> GoogleCalendarAttendeeDto list \<Rightarrow> jsstr \<Rightarrow> bool \<Rightarrow> cache
     \<Rightarrow> (error + jsstr) \<times> cache" where
  "cacheOrganizerAndAttendee this attendees organizerReq0 isPrakerja c =
     (let organizerReq = default_null organizerReq0;
          cacheKey = mainKey isPrakerja;
          data = rskCacheService_get c cacheKey;
          store = (\<lambda>org atts.
            (Inr org,
             rskCacheService_put c cacheKey
               (serializeCacheValue (CacheValue (fromPayload org atts))) oneMonth))
      in case deserializeCacheValue data of
           Inl e \<Rightarrow> (Inl e, c)
         | Inr None \<Rightarrow>
             store organizerReq (Some (map email (filter isExternal attendees)))
         | Inr (Some deserializedData) \<Rightarrow>
             (let org = json_organizer deserializedData;
                  atts = json_uniqueAttendees deserializedData
              in if truthy org \<and> org = organizerReq then
                   (case atts of
                      None \<Rightarrow> (Inl TypeError, c)
                    | Some cached \<Rightarrow>
                        if int (length cached) < externalAttendeesLimit this
                        then store org (Some (addExternal (new_Set cached) attendees))
                        else store org atts)
                 else store org atts))"

text \<open>
  \<^verbatim>\<open>fetchCurrentOrganizer\<close> (lines 396 to 404): the parsed entry of the category, and
  \<^verbatim>\<open>undefined\<close> (\<open>None\<close>) when the read is falsy. It writes nothing.
\<close>

definition fetchCurrentOrganizer :: "bool \<Rightarrow> cache \<Rightarrow> error + json option" where
  "fetchCurrentOrganizer isPrakerja c =
     (let googleCalendarCacheValue = rskCacheService_get c (mainKey isPrakerja)
      in if text_truthy googleCalendarCacheValue
         then deserializeCacheValue googleCalendarCacheValue
         else Inr None)"

text \<open>
  \<^verbatim>\<open>isBlockedTimeFinished\<close> (lines 597 to 616): more than 24 hours, in milliseconds, lie
  between the blocked date and now. An Invalid Date has the time \<^verbatim>\<open>NaN\<close>, and no
  comparison with \<^verbatim>\<open>NaN\<close> holds.
\<close>

definition twentyFourHoursInMilliseconds :: int where
  "twentyFourHoursInMilliseconds = 24 * 60 * 60 * 1000"

fun isBlockedTimeFinished :: "int \<Rightarrow> int option \<Rightarrow> bool" where
  "isBlockedTimeFinished now None = False"
| "isBlockedTimeFinished now (Some blockedDate) =
     (let timeDifference = now - blockedDate
      in if timeDifference > twentyFourHoursInMilliseconds then True else False)"

text \<open>
  \<^verbatim>\<open>blockOrganizer\<close> (lines 463 to 478) puts the blocked date of the organizer with a
  time-to-live of 24 hours, then deletes the entry of the first category, prakerja before
  non-prakerja, whose current organizer is truthy and is the organizer blocked.
\<close>

definition blockOrganizer :: "int \<Rightarrow> jsstr \<Rightarrow> cache \<Rightarrow> (error + unit) \<times> cache" where
  "blockOrganizer now org c =
     (let key = blockKey org;
          v = serializeCacheValue (DateString now);
          ttl = 24 * 60 * 60;
          c1 = rskCacheService_put c key v ttl
      in case fetchCurrentOrganizer True c1 of
           Inl e \<Rightarrow> (Inl e, c1)
         | Inr p \<Rightarrow>
             (case fetchCurrentOrganizer False c1 of
                Inl e \<Rightarrow> (Inl e, c1)
              | Inr n \<Rightarrow>
                  (let currentOrganizerPrakerja = optional_organizer p;
                       currentOrganizerNonPrakerja = optional_organizer n
                   in if truthy currentOrganizerPrakerja \<and> org = currentOrganizerPrakerja
                      then (Inr (), rskCacheService_delete c1 (gcalMainKey @ ''-prakerja''))
                      else if truthy currentOrganizerNonPrakerja \<and> org = currentOrganizerNonPrakerja
                      then (Inr (), rskCacheService_delete c1 (gcalMainKey @ ''-non-prakerja''))
                      else (Inr (), c1))))"

text \<open>
  The test \<^verbatim>\<open>isOrganizerAvailable\<close> makes for each category (lines 428 to 432):
  \<^verbatim>\<open>current && current.organizer === organizer && current.uniqueAttendees.length >= limit\<close>.
  The operands are evaluated left to right, so the length of an \<^verbatim>\<open>undefined\<close> array
  throws TypeError only when the organizers are equal.
\<close>

definition shouldBlockCurrentOrganizer ::
  "GoogleCalendarService \<Rightarrow> json option \<Rightarrow> jsstr \<Rightarrow> error + bool" where
  "shouldBlockCurrentOrganizer this currentOrganizer org =
     (case currentOrganizer of
        None \<Rightarrow> Inr False
      | Some v \<Rightarrow>
          if json_organizer v = org then
            (case json_uniqueAttendees v of
               None \<Rightarrow> Inl TypeError
             | Some atts \<Rightarrow> Inr (int (length atts) \<ge> externalAttendeesLimit this))
          else Inr False)"

text \<open>
  \<^verbatim>\<open>isOrganizerAvailable\<close> (lines 423 to 461). Both tests are made before anything is
  written. When one of them holds, \<^verbatim>\<open>blockOrganizer\<close> is called once for each test that
  does not hold, and the answer is \<^verbatim>\<open>false\<close>. Otherwise the blocked date of the organizer
  decides: no entry (or an empty one), available; an entry older than 24 hours, deleted and
  available; a younger one, not available.
\<close>

definition isOrganizerAvailable ::
  "GoogleCalendarService \<Rightarrow> int \<Rightarrow> jsstr \<Rightarrow> cache \<Rightarrow> (error + bool) \<times> cache" where
  "isOrganizerAvailable this now org c =
     (case fetchCurrentOrganizer True c of
        Inl e \<Rightarrow> (Inl e, c)
      | Inr currentOrganizerPrakerja \<Rightarrow>
     (case fetchCurrentOrganizer False c of
        Inl e \<Rightarrow> (Inl e, c)
      | Inr currentOrganizerNonPrakerja \<Rightarrow>
     (case shouldBlockCurrentOrganizer this currentOrganizerPrakerja org of
        Inl e \<Rightarrow> (Inl e, c)
      | Inr shouldBlockCurrentOrganizerPrakerja \<Rightarrow>
     (case shouldBlockCurrentOrganizer this currentOrganizerNonPrakerja org of
        Inl e \<Rightarrow> (Inl e, c)
      | Inr shouldBlockCurrentOrganizerNonPrakerja \<Rightarrow>
          if shouldBlockCurrentOrganizerPrakerja \<or> shouldBlockCurrentOrganizerNonPrakerja then
            (case (if \<not> shouldBlockCurrentOrganizerPrakerja
                   then blockOrganizer now org c else (Inr (), c)) of
               (Inl e, c1) \<Rightarrow> (Inl e, c1)
             | (Inr u, c1) \<Rightarrow>
                 (case (if \<not> shouldBlockCurrentOrganizerNonPrakerja
                        then blockOrganizer now org c1 else (Inr (), c1)) of
                    (Inl e, c2) \<Rightarrow> (Inl e, c2)
                  | (Inr u', c2) \<Rightarrow> (Inr False, c2)))
          else
            (let key = blockKey org;
                 cacheValue = rskCacheService_get c key
             in if text_truthy cacheValue then
                  (case deserializeCacheValue cacheValue of
                     Inl e \<Rightarrow> (Inl e, c)
                   | Inr blockedDateStr \<Rightarrow>
                       if isBlockedTimeFinished now (new_Date blockedDateStr)
                       then (Inr True, rskCacheService_delete c key)
                       else (Inr False, c))
                else (Inr True, c))))))"

text \<open>
  \<^verbatim>\<open>fetchAvailableOrganizers\<close> (lines 406 to 421). The loop asks
  \<^verbatim>\<open>isOrganizerAvailable\<close> for each organizer in the order of the list, each call on the
  cache the one before left, and collects those that are available. An exception ends it.
  Without a list (\<open>None\<close>) the candidates of the category are taken.
\<close>

fun availableOrganizers_loop ::
  "GoogleCalendarService \<Rightarrow> int \<Rightarrow> string list \<Rightarrow> string list \<Rightarrow> cache
     \<Rightarrow> (error + string list) \<times> cache" where
  "availableOrganizers_loop this now [] availableOrganizers c = (Inr availableOrganizers, c)"
| "availableOrganizers_loop this now (org # orgs) availableOrganizers c =
     (case isOrganizerAvailable this now (Str org) c of
        (Inl e, c') \<Rightarrow> (Inl e, c')
      | (Inr isAvailable, c') \<Rightarrow>
          availableOrganizers_loop this now orgs
            (if isAvailable then availableOrganizers @ [org] else availableOrganizers) c')"

definition candidates :: "GoogleCalendarService \<Rightarrow> bool \<Rightarrow> string list" where
  "candidates this isPrakerja =
     (if isPrakerja then prakerjaOrganizers this else nonPrakerjaOrganizers this)"

definition fetchAvailableOrganizers ::
  "GoogleCalendarService \<Rightarrow> int \<Rightarrow> bool \<Rightarrow> string list option \<Rightarrow> cache
     \<Rightarrow> (error + string list) \<times> cache" where
  "fetchAvailableOrganizers this now isPrakerja organizers c =
     availableOrganizers_loop this now
       (case organizers of None \<Rightarrow> candidates this isPrakerja | Some orgs \<Rightarrow> orgs) [] c"

text \<open>
  The choice of the organizer in \<^verbatim>\<open>createEvent\<close> (lines 165 to 178), up to the call
  \<^verbatim>\<open>this.authorize(organizer)\<close>: the result is the value of \<^verbatim>\<open>organizer\<close> that call
  receives. The current organizer of the category is read and asked for even when an
  organizer was passed. \<^verbatim>\<open>organizers[0]\<close> is tested for truthiness, and the branch taken
  when it is falsy is empty: \<^verbatim>\<open>organizer\<close> stays as it was passed. \<open>Inl e\<close> is an
  exception that leaves the \<^verbatim>\<open>try\<close> block.
\<close>

definition createEvent_organizer ::
  "GoogleCalendarService \<Rightarrow> int \<Rightarrow> bool \<Rightarrow> jsstr \<Rightarrow> cache \<Rightarrow> (error + jsstr) \<times> cache" where
  "createEvent_organizer this now isPrakerja organizer0 c =
     (let org = default_null organizer0
      in case fetchCurrentOrganizer isPrakerja c of
           Inl e \<Rightarrow> (Inl e, c)
         | Inr current \<Rightarrow>
             (let currentOrganizerCached = optional_organizer current
              in case isOrganizerAvailable this now currentOrganizerCached c of
                   (Inl e, c1) \<Rightarrow> (Inl e, c1)
                 | (Inr isAvailable, c1) \<Rightarrow>
                     if \<not> truthy org then
                       if truthy currentOrganizerCached \<and> isAvailable
                       then (Inr currentOrganizerCached, c1)
                       else
                         (case fetchAvailableOrganizers this now isPrakerja None c1 of
                            (Inl e, c2) \<Rightarrow> (Inl e, c2)
                          | (Inr organizers, c2) \<Rightarrow>
                              (case organizers of
                                 [] \<Rightarrow> (Inr org, c2)
                               | first # rest \<Rightarrow>
                                   if first \<noteq> [] then (Inr (Str first), c2)
                                   else (Inr org, c2)))
                     else (Inr org, c1)))"

subsection \<open>Sequences of calls\<close>

text \<open>
  A sequence of calls of \<^verbatim>\<open>cacheOrganizerAndAttendee\<close>, each with its attendees, its
  organizer and its category, run one after the other on the cache. A call that throws
  leaves the cache as it was, and the next call starts from there.
\<close>

fun recordAssignments ::
  "GoogleCalendarService \<Rightarrow> (GoogleCalendarAttendeeDto list \<times> jsstr \<times> bool) list \<Rightarrow> cache
     \<Rightarrow> cache" where
  "recordAssignments this [] c = c"
| "recordAssignments this ((attendees, organizerReq, isPrakerja) # calls) c =
     recordAssignments this calls
       (snd (cacheOrganizerAndAttendee this attendees organizerReq isPrakerja c))"

text \<open>
  No cache value in the cache counts an address that contains \<^verbatim>\<open>sempurna.com\<close>, the test
  by which the code takes an address for one of the organization.
\<close>

definition noInternalAttendees :: "cache \<Rightarrow> bool" where
  "noInternalAttendees c =
     (\<forall>k d atts e. rskCacheService_get c k = Some (Json (CacheValue d)) \<longrightarrow>
        uniqueAttendees d = Some atts \<longrightarrow> e \<in> set atts \<longrightarrow> \<not> str_includes e ''sempurna.com'')"

text \<open>The cache after the put of \<^verbatim>\<open>blockOrganizer\<close>: the organizer's blocked date is \<open>now\<close>.\<close>

definition blocked :: "int \<Rightarrow> jsstr \<Rightarrow> cache \<Rightarrow> cache" where
  "blocked now org c = rskCacheService_put c (blockKey org) (Json (DateString now)) (24 * 60 * 60)"

text \<open>
  The answer of \<^verbatim>\<open>isOrganizerAvailable\<close> as a function of the three things it reads: the
  current organizers of the two categories, once both reads have returned, and the entry
  under the organizer's blocked key.
\<close>

definition answer ::
  "GoogleCalendarService \<Rightarrow> int \<Rightarrow> jsstr \<Rightarrow> json option \<Rightarrow> json option \<Rightarrow> cache_text option
     \<Rightarrow> error + bool" where
  "answer this now org p n cacheValue =
     (case shouldBlockCurrentOrganizer this p org of
        Inl e \<Rightarrow> Inl e
      | Inr sp \<Rightarrow>
          (case shouldBlockCurrentOrganizer this n org of
             Inl e \<Rightarrow> Inl e
           | Inr sn \<Rightarrow>
               if sp \<or> sn then Inr False
               else if text_truthy cacheValue then
                 (case deserializeCacheValue cacheValue of
                    Inl e \<Rightarrow> Inl e
                  | Inr blockedDateStr \<Rightarrow> Inr (isBlockedTimeFinished now (new_Date blockedDateStr)))
               else Inr True))"

subsection \<open>Example inputs\<close>

text \<open>
  A service with three candidate organizers for prakerja, one for non-prakerja and a limit of
  two external attendees, and the stored string of a cache value with both fields set.
\<close>

definition exampleService :: GoogleCalendarService where
  "exampleService =
     \<lparr>prakerjaOrganizers = [''a@sempurna.id'', ''b@sempurna.id'', ''d@sempurna.id''],
      nonPrakerjaOrganizers = [''c@sempurna.id''],
      externalAttendeesLimit = 2\<rparr>"

definition poolOf :: "string \<Rightarrow> string list \<Rightarrow> cache_text" where
  "poolOf org atts = Json (CacheValue \<lparr>organizer = Str org, uniqueAttendees = Some atts\<rparr>)"

text \<open>
  Caches: organizer a current for prakerja, below the limit, and blocked at time 1000;
  organizer a current in both categories with the limit reached in both; organizer c current
  for non-prakerja with the limit reached; and a string that is not JSON under the key of
  prakerja.
\<close>

definition suspendedCache :: cache where
  "suspendedCache =
     rskCacheService_put
       (rskCacheService_put Map.empty (mainKey True) (poolOf ''a@sempurna.id'' [''u@mail.com'']) oneMonth)
       (blockKey (Str ''a@sempurna.id'')) (Json (DateString 1000)) (24 * 60 * 60)"

definition bothExhaustedCache :: cache where
  "bothExhaustedCache =
     rskCacheService_put
       (rskCacheService_put Map.empty (mainKey True)
          (poolOf ''a@sempurna.id'' [''u@mail.com'', ''v@mail.com'']) oneMonth)
       (mainKey False) (poolOf ''a@sempurna.id'' [''w@mail.com'', ''x@mail.com'']) oneMonth"

definition exhaustedCache :: cache where
  "exhaustedCache =
     rskCacheService_put Map.empty (mainKey False)
       (poolOf ''c@sempurna.id'' [''u@mail.com'', ''v@mail.com'']) oneMonth"

definition malformedCache :: cache where
  "malformedCache = rskCacheService_put Map.empty (mainKey True) Malformed oneMonth"

text \<open>
  Organizer a current for prakerja with the limit reached and nothing else; and the three
  candidates of prakerja blocked at time 1000, with no current organizer.
\<close>

definition exhaustedPrakerjaCache :: cache where
  "exhaustedPrakerjaCache =
     rskCacheService_put Map.empty (mainKey True)
       (poolOf ''a@sempurna.id'' [''u@mail.com'', ''v@mail.com'']) oneMonth"

definition allBlockedCache :: cache where
  "allBlockedCache =
     blocked 1000 (Str ''a@sempurna.id'')
       (blocked 1000 (Str ''b@sempurna.id'') (blocked 1000 (Str ''d@sempurna.id'') Map.empty))"


text \<open>A state of prakerja stored without an organizer.\<close>

definition noOrganizerCache :: cache where
  "noOrganizerCache =
     rskCacheService_put Map.empty (mainKey True)
       (Json (CacheValue \<lparr>organizer = Null, uniqueAttendees = Some [''u@mail.com'']\<rparr>)) oneMonth"



definition currentAndMalformedCache :: cache where
  "currentAndMalformedCache =
     rskCacheService_put
       (rskCacheService_put Map.empty (mainKey True) (poolOf ''a@sempurna.id'' [''u@mail.com'']) oneMonth)
       (mainKey False) Malformed oneMonth"

section \<open>Facts about the embedding\<close>

subsection \<open>The cache and its keys\<close>

lemma get_put:
  "rskCacheService_get (rskCacheService_put c k v t) k' =
     (if k' = k then Some v else rskCacheService_get c k')"
  by (simp add: rskCacheService_get_def rskCacheService_put_def)

lemma get_delete:
  "rskCacheService_get (rskCacheService_delete c k) k' =
     (if k' = k then None else rskCacheService_get c k')"
  by (simp add: rskCacheService_get_def rskCacheService_delete_def)

lemma get_empty: "rskCacheService_get Map.empty k = None"
  by (simp add: rskCacheService_get_def)

lemma mainKey_eq: "(mainKey a = mainKey b) = (a = b)"
  by (simp add: mainKey_def gcalMainKey_def)

lemma blockKey_mainKey: "blockKey org \<noteq> mainKey b"
  by (simp add: mainKey_def blockKey_def gcalMainKey_def gcalBlockKey_def)

lemma mainKey_blockKey: "mainKey b \<noteq> blockKey org"
  using blockKey_mainKey [of org b] by simp

lemma blockKey_eq: "(blockKey a = blockKey b) = (template a = template b)"
  by (simp add: blockKey_def)

lemma mainKey_True: "gcalMainKey @ ''-prakerja'' = mainKey True"
  by (simp add: mainKey_def)

lemma mainKey_False: "gcalMainKey @ ''-non-prakerja'' = mainKey False"
  by (simp add: mainKey_def)

subsection \<open>Sets of strings\<close>

lemma set_Set_add: "set (Set_add s x) = insert x (set s)"
  by (auto simp add: Set_add_def)

lemma distinct_Set_add: "distinct s \<Longrightarrow> distinct (Set_add s x)"
  by (simp add: Set_add_def)

lemma set_foldl_Set_add: "set (foldl Set_add s xs) = set s \<union> set xs"
  by (induction xs arbitrary: s) (auto simp add: set_Set_add)

lemma distinct_foldl_Set_add: "distinct s \<Longrightarrow> distinct (foldl Set_add s xs)"
  by (induction xs arbitrary: s) (auto simp add: distinct_Set_add)

lemma set_new_Set: "set (new_Set xs) = set xs"
  by (simp add: new_Set_def set_foldl_Set_add)

lemma distinct_new_Set: "distinct (new_Set xs)"
  by (simp add: new_Set_def distinct_foldl_Set_add)

lemma set_addExternal:
  "set (addExternal s attendees) = set s \<union> email ` {a \<in> set attendees. isExternal a}"
  unfolding addExternal_def
  by (induction attendees arbitrary: s) (auto simp add: set_Set_add)

lemma distinct_addExternal: "distinct s \<Longrightarrow> distinct (addExternal s attendees)"
  unfolding addExternal_def
  by (induction attendees arbitrary: s) (auto simp add: distinct_Set_add)

lemma length_addExternal:
  "distinct s \<Longrightarrow> length (addExternal s attendees) =
     card (set s \<union> email ` {a \<in> set attendees. isExternal a})"
  using distinct_card [OF distinct_addExternal, of s attendees] set_addExternal [of s attendees]
  by simp

subsection \<open>The three branches of \<^verbatim>\<open>cacheOrganizerAndAttendee\<close>\<close>

lemma cacheOrganizerAndAttendee_fresh:
  assumes "rskCacheService_get c (mainKey isPrakerja) = None"
  shows "cacheOrganizerAndAttendee this attendees organizerReq isPrakerja c =
     (Inr (default_null organizerReq),
      rskCacheService_put c (mainKey isPrakerja)
        (Json (CacheValue \<lparr>organizer = default_null organizerReq,
           uniqueAttendees = Some (map email (filter isExternal attendees))\<rparr>)) oneMonth)"
  using assms
  by (simp add: cacheOrganizerAndAttendee_def serializeCacheValue_def fromPayload_def Let_def)

lemma cacheOrganizerAndAttendee_keep:
  assumes "rskCacheService_get c (mainKey isPrakerja) = Some (Json (CacheValue d))"
    and "organizer d \<noteq> default_null organizerReq \<or> \<not> truthy (organizer d) \<or>
         (\<exists>atts. uniqueAttendees d = Some atts \<and> externalAttendeesLimit this \<le> int (length atts))"
  shows "cacheOrganizerAndAttendee this attendees organizerReq isPrakerja c =
     (Inr (organizer d),
      rskCacheService_put c (mainKey isPrakerja) (Json (CacheValue d)) oneMonth)"
  using assms
  by (cases d)
    (auto simp add: cacheOrganizerAndAttendee_def serializeCacheValue_def fromPayload_def Let_def)

lemma cacheOrganizerAndAttendee_merge:
  assumes "rskCacheService_get c (mainKey isPrakerja) = Some (Json (CacheValue d))"
    and "organizer d = default_null organizerReq" "truthy (organizer d)"
    and "uniqueAttendees d = Some atts" "int (length atts) < externalAttendeesLimit this"
  shows "cacheOrganizerAndAttendee this attendees organizerReq isPrakerja c =
     (Inr (organizer d),
      rskCacheService_put c (mainKey isPrakerja)
        (Json (CacheValue \<lparr>organizer = organizer d,
           uniqueAttendees = Some (addExternal (new_Set atts) attendees)\<rparr>)) oneMonth)"
  using assms
  by (auto simp add: cacheOrganizerAndAttendee_def serializeCacheValue_def fromPayload_def Let_def)

subsection \<open>Sizes\<close>

lemma length_Set_add: "length (Set_add s x) \<le> Suc (length s)"
  by (simp add: Set_add_def)

lemma length_foldl_Set_add: "length (foldl Set_add s xs) \<le> length s + length xs"
proof (induction xs arbitrary: s)
  case Nil
  then show ?case by simp
next
  case (Cons x xs)
  have "length (foldl Set_add (Set_add s x) xs) \<le> length (Set_add s x) + length xs"
    by (rule Cons.IH)
  also have "\<dots> \<le> Suc (length s) + length xs"
    using length_Set_add [of s x] by simp
  finally show ?case by simp
qed

lemma length_new_Set: "length (new_Set xs) \<le> length xs"
  using length_foldl_Set_add [of "[]" xs] by (simp add: new_Set_def)

lemma length_addExternal_le: "length (addExternal s attendees) \<le> length s + length attendees"
  unfolding addExternal_def
proof (induction attendees arbitrary: s)
  case Nil
  then show ?case by simp
next
  case (Cons a as)
  let ?s' = "if isExternal a then Set_add s (email a) else s"
  have "length ?s' \<le> Suc (length s)"
    using length_Set_add [of s "email a"] by simp
  moreover have "length (foldl (\<lambda>s attendee. if isExternal attendee then Set_add s (email attendee) else s) ?s' as)
      \<le> length ?s' + length as"
    by (rule Cons.IH)
  ultimately show ?case by simp
qed

subsection \<open>Substrings\<close>

lemma includes_iff: "str_includes s sub = (\<exists>xs ys. s = xs @ sub @ ys)"
proof (induction s)
  case Nil
  then show ?case by auto
next
  case (Cons c cs)
  show ?case
  proof
    assume "str_includes (c # cs) sub"
    then consider "prefix sub (c # cs)" | "str_includes cs sub" by auto
    then show "\<exists>xs ys. c # cs = xs @ sub @ ys"
    proof cases
      case 1
      then obtain ys where "c # cs = sub @ ys" by (auto simp: prefix_def)
      then have "c # cs = [] @ sub @ ys" by simp
      then show ?thesis by blast
    next
      case 2
      with Cons obtain xs ys where "cs = xs @ sub @ ys" by auto
      then have "c # cs = (c # xs) @ sub @ ys" by simp
      then show ?thesis by blast
    qed
  next
    assume "\<exists>xs ys. c # cs = xs @ sub @ ys"
    then obtain xs ys where e: "c # cs = xs @ sub @ ys" by blast
    show "str_includes (c # cs) sub"
    proof (cases xs)
      case Nil
      with e have "prefix sub (c # cs)" by (simp add: prefix_def)
      then show ?thesis by simp
    next
      case (Cons x xs')
      with e have "cs = xs' @ sub @ ys" by simp
      with Cons.IH have "str_includes cs sub" by blast
      then show ?thesis by simp
    qed
  qed
qed

subsection \<open>Where the stored attendees come from\<close>

lemma cacheOrganizerAndAttendee_attendees_from:
  assumes "cacheOrganizerAndAttendee this attendees organizerReq isPrakerja c = (r, c')"
    and "rskCacheService_get c' k = Some (Json (CacheValue d'))"
    and "uniqueAttendees d' = Some atts'"
    and "e \<in> set atts'"
  shows "(\<exists>d atts. rskCacheService_get c k = Some (Json (CacheValue d)) \<and>
            uniqueAttendees d = Some atts \<and> e \<in> set atts)
       \<or> (k = mainKey isPrakerja \<and> (\<exists>a \<in> set attendees. isExternal a \<and> e = email a))"
proof (cases "rskCacheService_get c (mainKey isPrakerja)")
  case None
  then have "c' = rskCacheService_put c (mainKey isPrakerja)
        (Json (CacheValue \<lparr>organizer = default_null organizerReq,
           uniqueAttendees = Some (map email (filter isExternal attendees))\<rparr>)) oneMonth"
    using assms(1) cacheOrganizerAndAttendee_fresh [of c isPrakerja this attendees organizerReq]
    by simp
  with assms(2,3,4) show ?thesis
    by (fastforce simp add: get_put split: if_splits)
next
  case (Some t)
  show ?thesis
  proof (cases t)
    case EmptyText
    with Some assms(1) have "c' = c"
      by (simp add: cacheOrganizerAndAttendee_def Let_def)
    with assms(2,3,4) show ?thesis by blast
  next
    case Malformed
    with Some assms(1) have "c' = c"
      by (simp add: cacheOrganizerAndAttendee_def Let_def)
    with assms(2,3,4) show ?thesis by blast
  next
    case (Json v)
    show ?thesis
    proof (cases v)
      case (DateString t')
      with Json Some assms(1) have "c' = rskCacheService_put c (mainKey isPrakerja)
          (Json (CacheValue \<lparr>organizer = Undefined, uniqueAttendees = None\<rparr>)) oneMonth"
        by (auto simp add: cacheOrganizerAndAttendee_def Let_def serializeCacheValue_def
            fromPayload_def)
      with assms(2,3,4) show ?thesis
        by (fastforce simp add: get_put split: if_splits)
    next
      case (CacheValue d)
      note stored = Some [unfolded Json CacheValue]
      consider
        (keep) "organizer d \<noteq> default_null organizerReq \<or> \<not> truthy (organizer d) \<or>
           (\<exists>atts. uniqueAttendees d = Some atts \<and> externalAttendeesLimit this \<le> int (length atts))"
        | (throw) "organizer d = default_null organizerReq" "truthy (organizer d)"
            "uniqueAttendees d = None"
        | (merge) atts where "organizer d = default_null organizerReq" "truthy (organizer d)"
            "uniqueAttendees d = Some atts" "int (length atts) < externalAttendeesLimit this"
        by (cases "uniqueAttendees d") force+
      then show ?thesis
      proof cases
        case keep
        then have "c' = rskCacheService_put c (mainKey isPrakerja) (Json (json.CacheValue d)) oneMonth"
          using assms(1) cacheOrganizerAndAttendee_keep [OF stored, of organizerReq this attendees]
          by simp
        with assms(2,3,4) stored show ?thesis
          by (fastforce simp add: get_put split: if_splits)
      next
        case throw
        with stored assms(1) have "c' = c"
          by (simp add: cacheOrganizerAndAttendee_def Let_def)
        with assms(2,3,4) show ?thesis by blast
      next
        case merge
        then have "c' = rskCacheService_put c (mainKey isPrakerja)
           (Json (json.CacheValue \<lparr>organizer = organizer d,
              uniqueAttendees = Some (addExternal (new_Set atts) attendees)\<rparr>)) oneMonth"
          using assms(1) cacheOrganizerAndAttendee_merge [OF stored, of organizerReq atts this attendees]
          by simp
        with assms(2,3,4) stored merge(3) show ?thesis
          by (fastforce simp add: get_put set_addExternal set_new_Set split: if_splits)
      qed
    qed
  qed
qed

lemma noInternalAttendees_step:
  assumes "noInternalAttendees c"
  shows "noInternalAttendees (snd (cacheOrganizerAndAttendee this attendees organizerReq isPrakerja c))"
  unfolding noInternalAttendees_def
proof (intro allI impI)
  fix k d' atts' e
  assume after: "rskCacheService_get
        (snd (cacheOrganizerAndAttendee this attendees organizerReq isPrakerja c)) k =
      Some (Json (CacheValue d'))"
    and atts': "uniqueAttendees d' = Some atts'" and e: "e \<in> set atts'"
  have call: "cacheOrganizerAndAttendee this attendees organizerReq isPrakerja c =
      (fst (cacheOrganizerAndAttendee this attendees organizerReq isPrakerja c),
       snd (cacheOrganizerAndAttendee this attendees organizerReq isPrakerja c))"
    by simp
  from cacheOrganizerAndAttendee_attendees_from [OF call after atts' e]
  show "\<not> str_includes e ''sempurna.com''"
  proof
    assume "\<exists>d atts. rskCacheService_get c k = Some (Json (CacheValue d)) \<and>
        uniqueAttendees d = Some atts \<and> e \<in> set atts"
    with assms show ?thesis unfolding noInternalAttendees_def by blast
  next
    assume "k = mainKey isPrakerja \<and> (\<exists>a\<in>set attendees. isExternal a \<and> e = email a)"
    then show ?thesis by (auto simp add: isExternal_def)
  qed
qed

lemma noInternalAttendees_recordAssignments:
  "noInternalAttendees c \<Longrightarrow> noInternalAttendees (recordAssignments this calls c)"
proof (induction calls arbitrary: c)
  case Nil
  then show ?case by simp
next
  case (Cons call calls)
  obtain attendees organizerReq isPrakerja where call: "call = (attendees, organizerReq, isPrakerja)"
    by (cases call) auto
  show ?case
    using Cons.IH [OF noInternalAttendees_step [OF Cons.prems, of this attendees organizerReq isPrakerja]]
    by (simp add: call)
qed

subsection \<open>Reading the current organizer\<close>

lemma fetchCurrentOrganizer_cong:
  "rskCacheService_get c' (mainKey b) = rskCacheService_get c (mainKey b) \<Longrightarrow>
   fetchCurrentOrganizer b c' = fetchCurrentOrganizer b c"
  by (simp add: fetchCurrentOrganizer_def)

lemma fetchCurrentOrganizer_put_blockKey:
  "fetchCurrentOrganizer b (rskCacheService_put c (blockKey org) v t) = fetchCurrentOrganizer b c"
  by (rule fetchCurrentOrganizer_cong) (simp add: get_put mainKey_blockKey)

lemma fetchCurrentOrganizer_delete_blockKey:
  "fetchCurrentOrganizer b (rskCacheService_delete c (blockKey org)) = fetchCurrentOrganizer b c"
  by (rule fetchCurrentOrganizer_cong) (simp add: get_delete mainKey_blockKey)

lemma fetchCurrentOrganizer_delete_mainKey:
  "fetchCurrentOrganizer b (rskCacheService_delete c (mainKey b')) =
     (if b = b' then Inr None else fetchCurrentOrganizer b c)"
  by (simp add: fetchCurrentOrganizer_def get_delete mainKey_eq)


lemma fetchCurrentOrganizer_blocked:
  "fetchCurrentOrganizer b (blocked now org c) = fetchCurrentOrganizer b c"
  by (simp add: blocked_def fetchCurrentOrganizer_put_blockKey)

lemma get_blocked:
  "rskCacheService_get (blocked now org c) k =
     (if k = blockKey org then Some (Json (DateString now)) else rskCacheService_get c k)"
  by (simp add: blocked_def get_put)

lemma fetchCurrentOrganizer_CacheValue:
  "rskCacheService_get c (mainKey b) = Some (Json v) \<Longrightarrow> fetchCurrentOrganizer b c = Inr (Some v)"
  by (simp add: fetchCurrentOrganizer_def)

subsection \<open>The branches of \<^verbatim>\<open>blockOrganizer\<close> and \<^verbatim>\<open>isOrganizerAvailable\<close>\<close>

lemma blockOrganizer_returns:
  assumes "fetchCurrentOrganizer True c = Inr p" and "fetchCurrentOrganizer False c = Inr n"
  shows "blockOrganizer now org c =
     (Inr (),
      if truthy (optional_organizer p) \<and> org = optional_organizer p
      then rskCacheService_delete (blocked now org c) (mainKey True)
      else if truthy (optional_organizer n) \<and> org = optional_organizer n
      then rskCacheService_delete (blocked now org c) (mainKey False)
      else blocked now org c)"
  using assms
  by (auto simp add: blockOrganizer_def blocked_def Let_def serializeCacheValue_def
      fetchCurrentOrganizer_put_blockKey mainKey_True mainKey_False)

lemma blockOrganizer_throws:
  assumes "fetchCurrentOrganizer True c = Inl e \<or>
      (\<exists>p. fetchCurrentOrganizer True c = Inr p) \<and> fetchCurrentOrganizer False c = Inl e"
  shows "blockOrganizer now org c = (Inl e, blocked now org c)"
  using assms
  by (auto simp add: blockOrganizer_def blocked_def Let_def serializeCacheValue_def
      fetchCurrentOrganizer_put_blockKey)

lemma isOrganizerAvailable_not_exhausted:
  assumes "fetchCurrentOrganizer True c = Inr p"
    and "shouldBlockCurrentOrganizer this p org = Inr False"
    and "fetchCurrentOrganizer False c = Inr n"
    and "shouldBlockCurrentOrganizer this n org = Inr False"
  shows "isOrganizerAvailable this now org c =
     (let cacheValue = rskCacheService_get c (blockKey org)
      in if text_truthy cacheValue then
           (case deserializeCacheValue cacheValue of
              Inl e \<Rightarrow> (Inl e, c)
            | Inr blockedDateStr \<Rightarrow>
                if isBlockedTimeFinished now (new_Date blockedDateStr)
                then (Inr True, rskCacheService_delete c (blockKey org))
                else (Inr False, c))
         else (Inr True, c))"
  using assms by (simp add: isOrganizerAvailable_def Let_def)

lemma isOrganizerAvailable_exhausted:
  assumes "fetchCurrentOrganizer True c = Inr p"
    and "shouldBlockCurrentOrganizer this p org = Inr sp"
    and "fetchCurrentOrganizer False c = Inr n"
    and "shouldBlockCurrentOrganizer this n org = Inr sn"
    and "sp \<or> sn"
  shows "isOrganizerAvailable this now org c =
     (Inr False, if sp \<and> sn then c else snd (blockOrganizer now org c))"
proof (cases "sp \<and> sn")
  case True
  then show ?thesis using assms by (simp add: isOrganizerAvailable_def)
next
  case False
  obtain c' where b: "blockOrganizer now org c = (Inr (), c')"
    using blockOrganizer_returns [OF assms(1,3), of now org] by simp
  show ?thesis
  proof (cases sp)
    case True
    with False have "\<not> sn" by simp
    with True assms(1-4) b show ?thesis
      by (simp add: isOrganizerAvailable_def)
  next
    case nsp: False
    with assms(5) have sn by simp
    with nsp assms(1-4) b show ?thesis
      by (simp add: isOrganizerAvailable_def)
  qed
qed

lemma get_blockOrganizer_blockKey:
  assumes "fetchCurrentOrganizer True c = Inr p" and "fetchCurrentOrganizer False c = Inr n"
  shows "rskCacheService_get (snd (blockOrganizer now org c)) (blockKey org) = Some (Json (DateString now))"
  using blockOrganizer_returns [OF assms, of now org]
  by (simp add: get_delete get_blocked blockKey_mainKey)

subsection \<open>What \<^verbatim>\<open>isOrganizerAvailable\<close> answers and what it leaves behind\<close>

lemma fst_isOrganizerAvailable:
  assumes "fetchCurrentOrganizer True c = Inr p" and "fetchCurrentOrganizer False c = Inr n"
  shows "fst (isOrganizerAvailable this now org c) =
     answer this now org p n (rskCacheService_get c (blockKey org))"
proof (cases "shouldBlockCurrentOrganizer this p org")
  case (Inl e)
  then show ?thesis using assms by (simp add: isOrganizerAvailable_def answer_def)
next
  case sp: (Inr sp)
  show ?thesis
  proof (cases "shouldBlockCurrentOrganizer this n org")
    case (Inl e)
    then show ?thesis using assms sp by (simp add: isOrganizerAvailable_def answer_def)
  next
    case sn: (Inr sn)
    show ?thesis
    proof (cases "sp \<or> sn")
      case True
      then show ?thesis
        using isOrganizerAvailable_exhausted [OF assms(1) sp assms(2) sn True, of now] sp sn
        by (simp add: answer_def)
    next
      case False
      then have "sp = False" "sn = False" by simp_all
      then show ?thesis
        using isOrganizerAvailable_not_exhausted [OF assms(1) _ assms(2), of this org now] sp sn
        by (simp add: answer_def Let_def split: sum.splits)
    qed
  qed
qed

lemma isOrganizerAvailable_throws_fetch:
  "fetchCurrentOrganizer True c = Inl e \<Longrightarrow> isOrganizerAvailable this now org c = (Inl e, c)"
  "fetchCurrentOrganizer True c = Inr p \<Longrightarrow> fetchCurrentOrganizer False c = Inl e \<Longrightarrow>
     isOrganizerAvailable this now org c = (Inl e, c)"
  by (simp_all add: isOrganizerAvailable_def)

lemma isOrganizerAvailable_returns_cases:
  assumes "isOrganizerAvailable this now org c = (Inr r, c')"
  obtains
    (same) p n where "fetchCurrentOrganizer True c = Inr p" "fetchCurrentOrganizer False c = Inr n" "c' = c"
  | (lifted) p n where "fetchCurrentOrganizer True c = Inr p" "fetchCurrentOrganizer False c = Inr n"
      "shouldBlockCurrentOrganizer this p org = Inr False"
      "shouldBlockCurrentOrganizer this n org = Inr False"
      "c' = rskCacheService_delete c (blockKey org)" "r"
  | (blocked) p n sp sn where "fetchCurrentOrganizer True c = Inr p" "fetchCurrentOrganizer False c = Inr n"
      "shouldBlockCurrentOrganizer this p org = Inr sp"
      "shouldBlockCurrentOrganizer this n org = Inr sn" "sp \<noteq> sn"
      "c' = snd (blockOrganizer now org c)" "\<not> r"
proof (cases "fetchCurrentOrganizer True c")
  case (Inl e)
  with assms show ?thesis by (simp add: isOrganizerAvailable_throws_fetch)
next
  case p: (Inr p)
  show ?thesis
  proof (cases "fetchCurrentOrganizer False c")
    case (Inl e)
    with assms p show ?thesis by (simp add: isOrganizerAvailable_throws_fetch)
  next
    case n: (Inr n)
    show ?thesis
    proof (cases "shouldBlockCurrentOrganizer this p org")
      case (Inl e)
      with assms p n show ?thesis by (simp add: isOrganizerAvailable_def)
    next
      case sp: (Inr sp)
      show ?thesis
      proof (cases "shouldBlockCurrentOrganizer this n org")
        case (Inl e)
        with assms p n sp show ?thesis by (simp add: isOrganizerAvailable_def)
      next
        case sn: (Inr sn)
        show ?thesis
        proof (cases "sp \<or> sn")
          case True
          from isOrganizerAvailable_exhausted [OF p sp n sn True, of now] assms
          have r: "\<not> r" and c': "c' = (if sp \<and> sn then c else snd (blockOrganizer now org c))"
            by simp_all
          show ?thesis
          proof (cases "sp \<and> sn")
            case True
            with c' have "c' = c" by simp
            with p n show ?thesis by (rule same)
          next
            case False
            with True have "sp \<noteq> sn" by auto
            moreover from False c' have "c' = snd (blockOrganizer now org c)" by auto
            ultimately show ?thesis using r by (intro blocked [OF p n sp sn]) simp_all
          qed
        next
          case False
          then have f: "sp = False" "sn = False" by simp_all
          from isOrganizerAvailable_not_exhausted [OF p sp [unfolded f] n sn [unfolded f], of now] assms
          have "c' = c \<or> (c' = rskCacheService_delete c (blockKey org) \<and> r)"
            by (auto simp add: Let_def split: if_splits sum.splits)
          then show ?thesis
          proof
            assume "c' = c"
            with p n show ?thesis by (rule same)
          next
            assume a: "c' = rskCacheService_delete c (blockKey org) \<and> r"
            show ?thesis by (rule lifted [OF p n]) (use sp sn f a in simp_all)
          qed
        qed
      qed
    qed
  qed
qed

lemma shouldBlockCurrentOrganizer_None [simp]:
  "shouldBlockCurrentOrganizer this None org = Inr False"
  by (simp add: shouldBlockCurrentOrganizer_def)

lemma shouldBlockCurrentOrganizer_other:
  "optional_organizer p \<noteq> org \<Longrightarrow> shouldBlockCurrentOrganizer this p org = Inr False"
  by (cases p) (auto simp add: shouldBlockCurrentOrganizer_def)

lemma answer_just_blocked:
  assumes "shouldBlockCurrentOrganizer this p org = Inr sp"
    and "shouldBlockCurrentOrganizer this n org = Inr sn"
  shows "answer this now org p n (Some (Json (DateString now))) = Inr False"
  using assms by (simp add: answer_def twentyFourHoursInMilliseconds_def)

lemma blockOrganizer_observed:
  assumes "fetchCurrentOrganizer True c = Inr p" and "fetchCurrentOrganizer False c = Inr n"
  obtains p' n' where
    "fetchCurrentOrganizer True (snd (blockOrganizer now org c)) = Inr p'"
    "fetchCurrentOrganizer False (snd (blockOrganizer now org c)) = Inr n'"
    "p' = p \<or> p' = None \<and> optional_organizer p = org"
    "n' = n \<or> n' = None \<and> optional_organizer n = org"
    "\<And>org'. rskCacheService_get (snd (blockOrganizer now org c)) (blockKey org') =
       rskCacheService_get (blocked now org c) (blockKey org')"
proof (cases "truthy (optional_organizer p) \<and> org = optional_organizer p")
  case True
  have c': "snd (blockOrganizer now org c) = rskCacheService_delete (blocked now org c) (mainKey True)"
    using blockOrganizer_returns [OF assms, of now org]
    by (simp only: snd_conv if_P [OF True])
  show ?thesis
  proof (rule that [of None n])
    show "fetchCurrentOrganizer True (snd (blockOrganizer now org c)) = Inr None"
      by (simp add: c' fetchCurrentOrganizer_delete_mainKey)
    show "fetchCurrentOrganizer False (snd (blockOrganizer now org c)) = Inr n"
      using assms(2) by (simp add: c' fetchCurrentOrganizer_delete_mainKey fetchCurrentOrganizer_blocked)
    show "None = p \<or> None = None \<and> optional_organizer p = org" using True by simp
    show "n = n \<or> n = None \<and> optional_organizer n = org" by simp
    show "\<And>org'. rskCacheService_get (snd (blockOrganizer now org c)) (blockKey org') =
       rskCacheService_get (blocked now org c) (blockKey org')"
      by (simp add: c' get_delete blockKey_mainKey)
  qed
next
  case first: False
  show ?thesis
  proof (cases "truthy (optional_organizer n) \<and> org = optional_organizer n")
    case True
    have c': "snd (blockOrganizer now org c) = rskCacheService_delete (blocked now org c) (mainKey False)"
      using blockOrganizer_returns [OF assms, of now org]
      by (simp only: snd_conv if_not_P [OF first] if_P [OF True])
    show ?thesis
    proof (rule that [of p None])
      show "fetchCurrentOrganizer True (snd (blockOrganizer now org c)) = Inr p"
        using assms(1) by (simp add: c' fetchCurrentOrganizer_delete_mainKey fetchCurrentOrganizer_blocked)
      show "fetchCurrentOrganizer False (snd (blockOrganizer now org c)) = Inr None"
        by (simp add: c' fetchCurrentOrganizer_delete_mainKey)
      show "p = p \<or> p = None \<and> optional_organizer p = org" by simp
      show "None = n \<or> None = None \<and> optional_organizer n = org" using True by simp
      show "\<And>org'. rskCacheService_get (snd (blockOrganizer now org c)) (blockKey org') =
         rskCacheService_get (blocked now org c) (blockKey org')"
        by (simp add: c' get_delete blockKey_mainKey)
    qed
  next
    case False
    have c': "snd (blockOrganizer now org c) = blocked now org c"
      using blockOrganizer_returns [OF assms, of now org]
      by (simp only: snd_conv if_not_P [OF first] if_not_P [OF False])
    show ?thesis
    proof (rule that [of p n])
      show "fetchCurrentOrganizer True (snd (blockOrganizer now org c)) = Inr p"
        using assms(1) by (simp add: c' fetchCurrentOrganizer_blocked)
      show "fetchCurrentOrganizer False (snd (blockOrganizer now org c)) = Inr n"
        using assms(2) by (simp add: c' fetchCurrentOrganizer_blocked)
      show "p = p \<or> p = None \<and> optional_organizer p = org" by simp
      show "n = n \<or> n = None \<and> optional_organizer n = org" by simp
      show "\<And>org'. rskCacheService_get (snd (blockOrganizer now org c)) (blockKey org') =
         rskCacheService_get (blocked now org c) (blockKey org')"
        by (simp add: c')
    qed
  qed
qed

text \<open>
  Asking for one organizer does not change the answer for any organizer: not for another
  one, whose blocked key and whose cache values are left alone, and not for the same one at
  the same time, which is blocked if it was, and free if it was.
\<close>

lemma isOrganizerAvailable_frame:
  assumes "isOrganizerAvailable this now (Str b) c = (Inr r, c')"
  shows "fst (isOrganizerAvailable this now (Str a) c') = fst (isOrganizerAvailable this now (Str a) c)"
  using assms
proof (cases rule: isOrganizerAvailable_returns_cases)
  case (same p n)
  then show ?thesis by simp
next
  case (lifted p n)
  have p': "fetchCurrentOrganizer True c' = Inr p" and n': "fetchCurrentOrganizer False c' = Inr n"
    using lifted by (simp_all add: fetchCurrentOrganizer_delete_blockKey)
  show ?thesis
  proof (cases "a = b")
    case True
    have "fst (isOrganizerAvailable this now (Str b) c') = Inr True"
      using fst_isOrganizerAvailable [OF p' n', of this now "Str b"] lifted
      by (simp add: get_delete answer_def)
    moreover have "fst (isOrganizerAvailable this now (Str b) c) = Inr True"
      using assms lifted by simp
    ultimately show ?thesis using True by simp
  next
    case False
    then have "rskCacheService_get c' (blockKey (Str a)) = rskCacheService_get c (blockKey (Str a))"
      using lifted by (simp add: get_delete blockKey_eq)
    then show ?thesis
      using fst_isOrganizerAvailable [OF p' n', of this now "Str a"]
        fst_isOrganizerAvailable [OF lifted(1,2), of this now "Str a"]
      by simp
  qed
next
  case (blocked p n sp sn)
  obtain p' n' where fp': "fetchCurrentOrganizer True c' = Inr p'"
    and fn': "fetchCurrentOrganizer False c' = Inr n'"
    and p': "p' = p \<or> p' = None \<and> optional_organizer p = Str b"
    and n': "n' = n \<or> n' = None \<and> optional_organizer n = Str b"
    and keys: "\<And>org'. rskCacheService_get c' (blockKey org') =
       rskCacheService_get (blocked now (Str b) c) (blockKey org')"
    using blockOrganizer_observed [OF blocked(1,2), of now "Str b"] blocked(6) by metis
  have key: "rskCacheService_get c' (blockKey (Str a)) =
      (if a = b then Some (Json (DateString now)) else rskCacheService_get c (blockKey (Str a)))"
    by (simp add: keys get_blocked blockKey_eq)
  show ?thesis
  proof (cases "a = b")
    case True
    have "shouldBlockCurrentOrganizer this p' (Str b) = Inr sp \<or>
        shouldBlockCurrentOrganizer this p' (Str b) = Inr False"
      using blocked(3) p' by auto
    then obtain sp' where sp': "shouldBlockCurrentOrganizer this p' (Str b) = Inr sp'"
      by blast
    have "shouldBlockCurrentOrganizer this n' (Str b) = Inr sn \<or>
        shouldBlockCurrentOrganizer this n' (Str b) = Inr False"
      using blocked(4) n' by auto
    then obtain sn' where sn': "shouldBlockCurrentOrganizer this n' (Str b) = Inr sn'"
      by blast
    have "fst (isOrganizerAvailable this now (Str b) c') = Inr False"
      using fst_isOrganizerAvailable [OF fp' fn', of this now "Str b"] key True
        answer_just_blocked [OF sp' sn', of now]
      by simp
    moreover have "fst (isOrganizerAvailable this now (Str b) c) = Inr False"
      using assms blocked(7) by simp
    ultimately show ?thesis using True by simp
  next
    case False
    have sp: "shouldBlockCurrentOrganizer this p' (Str a) = shouldBlockCurrentOrganizer this p (Str a)"
      using p' False by (auto simp add: shouldBlockCurrentOrganizer_other)
    have sn: "shouldBlockCurrentOrganizer this n' (Str a) = shouldBlockCurrentOrganizer this n (Str a)"
      using n' False by (auto simp add: shouldBlockCurrentOrganizer_other)
    have "answer this now (Str a) p' n' (rskCacheService_get c' (blockKey (Str a))) =
        answer this now (Str a) p n (rskCacheService_get c (blockKey (Str a)))"
    proof -
      have keyeq: "rskCacheService_get c' (blockKey (Str a)) = rskCacheService_get c (blockKey (Str a))"
        using key False by simp
      show ?thesis unfolding answer_def sp sn keyeq ..
    qed
    then show ?thesis
      using fst_isOrganizerAvailable [OF fp' fn', of this now "Str a"]
        fst_isOrganizerAvailable [OF blocked(1,2), of this now "Str a"]
      by simp
  qed
qed

subsection \<open>The candidates\<close>

lemma availableOrganizers_loop_filter:
  assumes "\<forall>org \<in> set orgs. \<exists>r. fst (isOrganizerAvailable this now (Str org) c) = Inr r"
  shows "fst (availableOrganizers_loop this now orgs acc c) =
     Inr (acc @ filter (\<lambda>org. fst (isOrganizerAvailable this now (Str org) c) = Inr True) orgs)"
  using assms
proof (induction orgs arbitrary: acc c)
  case Nil
  then show ?case by simp
next
  case (Cons org orgs)
  from Cons.prems obtain r where "fst (isOrganizerAvailable this now (Str org) c) = Inr r"
    by auto
  then obtain c' where call: "isOrganizerAvailable this now (Str org) c = (Inr r, c')"
    by (cases "isOrganizerAvailable this now (Str org) c") simp
  have frame: "\<And>a. fst (isOrganizerAvailable this now (Str a) c') =
      fst (isOrganizerAvailable this now (Str a) c)"
    using isOrganizerAvailable_frame [OF call] .
  have "\<forall>org \<in> set orgs. \<exists>r. fst (isOrganizerAvailable this now (Str org) c') = Inr r"
    using Cons.prems by (simp add: frame)
  from Cons.IH [OF this, of "if r then acc @ [org] else acc"]
  show ?case
    using call by (simp add: frame)
qed

lemma fst_fetchAvailableOrganizers:
  assumes "\<forall>org \<in> set (candidates this isPrakerja).
      \<exists>r. fst (isOrganizerAvailable this now (Str org) c) = Inr r"
  shows "fst (fetchAvailableOrganizers this now isPrakerja None c) =
     Inr (filter (\<lambda>org. fst (isOrganizerAvailable this now (Str org) c) = Inr True)
       (candidates this isPrakerja))"
  using availableOrganizers_loop_filter [OF assms, of "[]"]
  by (simp add: fetchAvailableOrganizers_def)

lemma createEvent_organizer_from_candidates:
  assumes "\<not> truthy (default_null organizer0)"
    and "fetchCurrentOrganizer isPrakerja c = Inr current"
    and "isOrganizerAvailable this now (optional_organizer current) c = (Inr isAvailable, c1)"
    and "\<not> (truthy (optional_organizer current) \<and> isAvailable)"
    and "\<forall>org \<in> set (candidates this isPrakerja).
      \<exists>r. fst (isOrganizerAvailable this now (Str org) c1) = Inr r"
  shows "fst (createEvent_organizer this now isPrakerja organizer0 c) =
     Inr (case filter (\<lambda>org. fst (isOrganizerAvailable this now (Str org) c1) = Inr True)
            (candidates this isPrakerja) of
          [] \<Rightarrow> default_null organizer0
        | first # rest \<Rightarrow> if first \<noteq> [] then Str first else default_null organizer0)"
proof -
  obtain c2 where list: "fetchAvailableOrganizers this now isPrakerja None c1 =
      (Inr (filter (\<lambda>org. fst (isOrganizerAvailable this now (Str org) c1) = Inr True)
         (candidates this isPrakerja)), c2)"
    using fst_fetchAvailableOrganizers [OF assms(5)]
    by (cases "fetchAvailableOrganizers this now isPrakerja None c1") simp
  show ?thesis
    using assms(1-4) list
    by (auto simp add: createEvent_organizer_def Let_def split: list.splits)
qed

lemma createEvent_organizer_passed:
  assumes "truthy (default_null organizer0)"
    and "fetchCurrentOrganizer isPrakerja c = Inr current"
    and "isOrganizerAvailable this now (optional_organizer current) c = (Inr isAvailable, c1)"
  shows "createEvent_organizer this now isPrakerja organizer0 c = (Inr (default_null organizer0), c1)"
  using assms by (simp add: createEvent_organizer_def Let_def)

text \<open>
  The two reads that open the choice of the organizer (lines 166 and 167) come before the
  test of the organizer passed: an exception of either ends the choice.
\<close>

lemma createEvent_organizer_throws:
  "fetchCurrentOrganizer isPrakerja c = Inl e \<Longrightarrow>
     createEvent_organizer this now isPrakerja organizer0 c = (Inl e, c)"
  "fetchCurrentOrganizer isPrakerja c = Inr current \<Longrightarrow>
     isOrganizerAvailable this now (optional_organizer current) c = (Inl e, c1) \<Longrightarrow>
     createEvent_organizer this now isPrakerja organizer0 c = (Inl e, c1)"
  by (simp_all add: createEvent_organizer_def Let_def)

subsection \<open>Evaluation\<close>

lemmas eval_simps = isOrganizerAvailable_def fetchCurrentOrganizer_def blockOrganizer_def
  shouldBlockCurrentOrganizer_def get_put get_delete get_empty get_blocked mainKey_eq
  blockKey_mainKey mainKey_blockKey blockKey_eq mainKey_True mainKey_False Let_def
  serializeCacheValue_def poolOf_def exampleService_def twentyFourHoursInMilliseconds_def

section \<open>The claims\<close>

text \<open>
  C1, as amended. The claim says that \<^verbatim>\<open>cacheOrganizerAndAttendee\<close> replaces the state of the
  category whenever there is none, the stored organizer is another one, or the stored
  attendees have reached the limit. The code replaces it only when there is none: the
  requested organizer is stored with exactly the external addresses of the new attendees. When
  a cache value is stored and its organizer is not the requested one (or is falsy), or its
  attendees have reached the limit, the stored value is put back as it was read, with a new
  time-to-live, and the stored organizer is returned.
\<close>

theorem cacheOrganizerAndAttendee_replaces_or_keeps:
  "(rskCacheService_get c (mainKey isPrakerja) = None \<longrightarrow>
      cacheOrganizerAndAttendee this attendees organizerReq isPrakerja c =
        (Inr (default_null organizerReq),
         rskCacheService_put c (mainKey isPrakerja)
           (Json (CacheValue \<lparr>organizer = default_null organizerReq,
              uniqueAttendees = Some (map email (filter isExternal attendees))\<rparr>)) oneMonth))
   \<and> (rskCacheService_get c (mainKey isPrakerja) = Some (Json (CacheValue d)) \<and>
        (organizer d \<noteq> default_null organizerReq \<or> \<not> truthy (organizer d) \<or>
         (\<exists>atts. uniqueAttendees d = Some atts \<and> externalAttendeesLimit this \<le> int (length atts))) \<longrightarrow>
      cacheOrganizerAndAttendee this attendees organizerReq isPrakerja c =
        (Inr (organizer d),
         rskCacheService_put c (mainKey isPrakerja) (Json (CacheValue d)) oneMonth))"
  using cacheOrganizerAndAttendee_fresh [of c isPrakerja this attendees organizerReq]
    cacheOrganizerAndAttendee_keep [of c isPrakerja d organizerReq this attendees]
  by blast

text \<open>
  The theorem at two inputs: an empty cache, where the new state holds the external address
  and not the one of the organization; and a state of organizer a, which a call for organizer
  b leaves as it was.
\<close>

theorem cacheOrganizerAndAttendee_replaces_or_keeps_witness:
  "cacheOrganizerAndAttendee exampleService
       [\<lparr>email = ''v@mail.com''\<rparr>, \<lparr>email = ''w@sempurna.com''\<rparr>]
       (Str ''b@sempurna.id'') False Map.empty =
     (Inr (Str ''b@sempurna.id''),
      rskCacheService_put Map.empty (mainKey False)
        (poolOf ''b@sempurna.id'' [''v@mail.com'']) oneMonth)
   \<and> cacheOrganizerAndAttendee exampleService [\<lparr>email = ''v@mail.com''\<rparr>]
       (Str ''b@sempurna.id'') True
       (rskCacheService_put Map.empty (mainKey True)
          (poolOf ''a@sempurna.id'' [''u@mail.com'']) oneMonth) =
     (Inr (Str ''a@sempurna.id''),
      rskCacheService_put
        (rskCacheService_put Map.empty (mainKey True)
           (poolOf ''a@sempurna.id'' [''u@mail.com'']) oneMonth)
        (mainKey True) (poolOf ''a@sempurna.id'' [''u@mail.com'']) oneMonth)"
proof -
  have absent: "rskCacheService_get Map.empty (mainKey False) = None"
    by (simp add: get_empty)
  have present: "rskCacheService_get
      (rskCacheService_put Map.empty (mainKey True)
         (poolOf ''a@sempurna.id'' [''u@mail.com'']) oneMonth)
      (mainKey True) =
      Some (Json (CacheValue
        \<lparr>organizer = Str ''a@sempurna.id'', uniqueAttendees = Some [''u@mail.com'']\<rparr>))"
    by (simp add: get_put poolOf_def)
  have other:
    "organizer \<lparr>organizer = Str ''a@sempurna.id'', uniqueAttendees = Some [''u@mail.com'']\<rparr>
      \<noteq> default_null (Str ''b@sempurna.id'')"
    by simp
  show ?thesis
    using cacheOrganizerAndAttendee_replaces_or_keeps
        [where c = Map.empty and isPrakerja = False and this = exampleService
           and attendees = "[\<lparr>email = ''v@mail.com''\<rparr>, \<lparr>email = ''w@sempurna.com''\<rparr>]"
           and organizerReq = "Str ''b@sempurna.id''"] absent
      cacheOrganizerAndAttendee_replaces_or_keeps
        [where c = "rskCacheService_put Map.empty (mainKey True)
              (poolOf ''a@sempurna.id'' [''u@mail.com'']) oneMonth"
           and isPrakerja = True
           and d = "\<lparr>organizer = Str ''a@sempurna.id'', uniqueAttendees = Some [''u@mail.com'']\<rparr>"
           and organizerReq = "Str ''b@sempurna.id''" and this = exampleService
           and attendees = "[\<lparr>email = ''v@mail.com''\<rparr>]"] present other
    by (simp add: poolOf_def isExternal_def)
qed

text \<open>
  C1 as it is written fails. With the state of organizer a stored, a call for organizer b
  leaves organizer a and its attendee in the cache; and with two attendees stored under a
  limit of two, a call for the same organizer leaves those two, not the new one.
\<close>

theorem cacheOrganizerAndAttendee_replaces_counterexample:
  "rskCacheService_get
     (snd (cacheOrganizerAndAttendee exampleService [\<lparr>email = ''v@mail.com''\<rparr>]
        (Str ''b@sempurna.id'') True
        (rskCacheService_put Map.empty (mainKey True)
           (poolOf ''a@sempurna.id'' [''u@mail.com'']) oneMonth)))
     (mainKey True) = Some (poolOf ''a@sempurna.id'' [''u@mail.com''])
   \<and> poolOf ''a@sempurna.id'' [''u@mail.com''] \<noteq> poolOf ''b@sempurna.id'' [''v@mail.com'']
   \<and> rskCacheService_get
     (snd (cacheOrganizerAndAttendee exampleService [\<lparr>email = ''v@mail.com''\<rparr>]
        (Str ''a@sempurna.id'') True
        (rskCacheService_put Map.empty (mainKey True)
           (poolOf ''a@sempurna.id'' [''u@mail.com'', ''w@mail.com'']) oneMonth)))
     (mainKey True) = Some (poolOf ''a@sempurna.id'' [''u@mail.com'', ''w@mail.com''])
   \<and> poolOf ''a@sempurna.id'' [''u@mail.com'', ''w@mail.com'']
       \<noteq> poolOf ''a@sempurna.id'' [''v@mail.com'']"
  by (simp add: cacheOrganizerAndAttendee_def get_put poolOf_def exampleService_def
      serializeCacheValue_def fromPayload_def Let_def)

text \<open>
  C2, as amended. The cache value of one category has the organizer as its current one with
  at least as many attendees as the limit, and the test for the other category is made and
  returns. Then \<^verbatim>\<open>isOrganizerAvailable\<close> returns \<^verbatim>\<open>false\<close>; and when the test for the
  other category does not hold, the blocked date of the organizer is in the cache afterwards,
  written at the time of the call.
\<close>

theorem quota_breach_blocks:
  assumes "rskCacheService_get c (mainKey isPrakerja) = Some (Json (CacheValue d))"
    and "organizer d = org" and "uniqueAttendees d = Some atts"
    and "externalAttendeesLimit this \<le> int (length atts)"
    and "fetchCurrentOrganizer (\<not> isPrakerja) c = Inr other"
    and "shouldBlockCurrentOrganizer this other org = Inr otherToo"
  shows "fst (isOrganizerAvailable this now org c) = Inr False
     \<and> (\<not> otherToo \<longrightarrow>
          rskCacheService_get (snd (isOrganizerAvailable this now org c)) (blockKey org) =
            Some (Json (DateString now)))"
proof -
  have mine: "fetchCurrentOrganizer isPrakerja c = Inr (Some (CacheValue d))"
    using assms(1) by (rule fetchCurrentOrganizer_CacheValue)
  have test: "shouldBlockCurrentOrganizer this (Some (CacheValue d)) org = Inr True"
    using assms(2,3,4) by (simp add: shouldBlockCurrentOrganizer_def)
  show ?thesis
  proof (cases isPrakerja)
    case True
    with mine assms(5) have p: "fetchCurrentOrganizer True c = Inr (Some (CacheValue d))"
      and n: "fetchCurrentOrganizer False c = Inr other" by simp_all
    show ?thesis
      using isOrganizerAvailable_exhausted [OF p test n assms(6), of now]
        get_blockOrganizer_blockKey [OF p n, of now org]
      by simp
  next
    case False
    with mine assms(5) have n: "fetchCurrentOrganizer False c = Inr (Some (CacheValue d))"
      and p: "fetchCurrentOrganizer True c = Inr other" by simp_all
    show ?thesis
      using isOrganizerAvailable_exhausted [OF p assms(6) n test, of now]
        get_blockOrganizer_blockKey [OF p n, of now org]
      by simp
  qed
qed

text \<open>The theorem for organizer c, current for non-prakerja with two attendees under a limit of two.\<close>

theorem quota_breach_blocks_witness:
  "fst (isOrganizerAvailable exampleService 5000 (Str ''c@sempurna.id'') exhaustedCache) = Inr False
   \<and> rskCacheService_get
        (snd (isOrganizerAvailable exampleService 5000 (Str ''c@sempurna.id'') exhaustedCache))
        (blockKey (Str ''c@sempurna.id'')) = Some (Json (DateString 5000))
   \<and> rskCacheService_get exhaustedCache (blockKey (Str ''c@sempurna.id'')) = None"
proof -
  have stored: "rskCacheService_get exhaustedCache (mainKey False) =
      Some (Json (CacheValue \<lparr>organizer = Str ''c@sempurna.id'',
        uniqueAttendees = Some [''u@mail.com'', ''v@mail.com'']\<rparr>))"
    by (simp add: exhaustedCache_def get_put poolOf_def)
  have limit: "externalAttendeesLimit exampleService \<le> int (length [''u@mail.com'', ''v@mail.com''])"
    by (simp add: exampleService_def)
  have other: "fetchCurrentOrganizer (\<not> False) exhaustedCache = Inr None"
    by (simp add: fetchCurrentOrganizer_def exhaustedCache_def get_put get_empty mainKey_eq)
  have test: "shouldBlockCurrentOrganizer exampleService None (Str ''c@sempurna.id'') = Inr False"
    by (simp add: shouldBlockCurrentOrganizer_def)
  have before: "rskCacheService_get exhaustedCache (blockKey (Str ''c@sempurna.id'')) = None"
    by (simp add: exhaustedCache_def get_put get_empty blockKey_mainKey)
  show ?thesis
    using quota_breach_blocks [OF stored _ _ limit other test, of 5000] before
    by simp
qed

text \<open>
  C2 as it is written fails at two inputs. When the limit is reached in both categories,
  both tests hold, \<^verbatim>\<open>blockOrganizer\<close> is called for neither, the answer is \<^verbatim>\<open>false\<close>
  and the cache is what it was, with no blocked date for the organizer. When the limit is
  reached for non-prakerja and the string under the key of prakerja is not JSON, the call
  throws SyntaxError and returns nothing.
\<close>

theorem quota_breach_counterexample:
  "rskCacheService_get bothExhaustedCache (mainKey True) =
     Some (poolOf ''a@sempurna.id'' [''u@mail.com'', ''v@mail.com''])
   \<and> externalAttendeesLimit exampleService \<le> int (length [''u@mail.com'', ''v@mail.com''])
   \<and> isOrganizerAvailable exampleService 5000 (Str ''a@sempurna.id'') bothExhaustedCache =
     (Inr False, bothExhaustedCache)
   \<and> rskCacheService_get bothExhaustedCache (blockKey (Str ''a@sempurna.id'')) = None
   \<and> rskCacheService_get (rskCacheService_put exhaustedCache (mainKey True) Malformed oneMonth)
        (mainKey False) = Some (poolOf ''c@sempurna.id'' [''u@mail.com'', ''v@mail.com''])
   \<and> isOrganizerAvailable exampleService 5000 (Str ''c@sempurna.id'')
        (rskCacheService_put exhaustedCache (mainKey True) Malformed oneMonth) =
     (Inl SyntaxError, rskCacheService_put exhaustedCache (mainKey True) Malformed oneMonth)"
  by (simp add: isOrganizerAvailable_def fetchCurrentOrganizer_def bothExhaustedCache_def
      exhaustedCache_def get_put
      get_empty mainKey_eq blockKey_mainKey poolOf_def shouldBlockCurrentOrganizer_def exampleService_def)

text \<open>
  C3. The organizer is not at the limit in either category (both tests are made and fail)
  and its blocked date is in the cache. If more than 24 hours lie between that date and now,
  \<^verbatim>\<open>isOrganizerAvailable\<close> deletes the entry and returns \<^verbatim>\<open>true\<close>; if at most 24 hours,
  it returns \<^verbatim>\<open>false\<close> and leaves the cache alone. The answer is a function of the stored
  date and of now: the time-to-live of the entry, whatever it is, plays no part.
\<close>

theorem suspension_lifted_by_timestamp:
  assumes "fetchCurrentOrganizer True c = Inr p"
    and "shouldBlockCurrentOrganizer this p org = Inr False"
    and "fetchCurrentOrganizer False c = Inr n"
    and "shouldBlockCurrentOrganizer this n org = Inr False"
    and "c (blockKey org) = Some (Json (DateString suspendedAt), ttl)"
  shows "(now - suspendedAt > 24 * 60 * 60 * 1000 \<longrightarrow>
            isOrganizerAvailable this now org c = (Inr True, rskCacheService_delete c (blockKey org))
            \<and> rskCacheService_get (rskCacheService_delete c (blockKey org)) (blockKey org) = None)
       \<and> (now - suspendedAt \<le> 24 * 60 * 60 * 1000 \<longrightarrow>
            isOrganizerAvailable this now org c = (Inr False, c))"
proof -
  have "rskCacheService_get c (blockKey org) = Some (Json (DateString suspendedAt))"
    using assms(5) by (simp add: rskCacheService_get_def)
  then show ?thesis
    using isOrganizerAvailable_not_exhausted [OF assms(1-4), of now]
    by (simp add: Let_def twentyFourHoursInMilliseconds_def get_delete)
qed

text \<open>
  The theorem for an organizer blocked at time 1000: one millisecond past 24 hours the block
  is lifted, at exactly 24 hours it is not.
\<close>

theorem suspension_lifted_by_timestamp_witness:
  "isOrganizerAvailable exampleService 86401001 (Str ''a@sempurna.id'') suspendedCache =
     (Inr True, rskCacheService_delete suspendedCache (blockKey (Str ''a@sempurna.id'')))
   \<and> rskCacheService_get (rskCacheService_delete suspendedCache (blockKey (Str ''a@sempurna.id'')))
        (blockKey (Str ''a@sempurna.id'')) = None
   \<and> isOrganizerAvailable exampleService 86401000 (Str ''a@sempurna.id'') suspendedCache =
     (Inr False, suspendedCache)"
proof -
  have p: "fetchCurrentOrganizer True suspendedCache =
      Inr (Some (CacheValue \<lparr>organizer = Str ''a@sempurna.id'', uniqueAttendees = Some [''u@mail.com'']\<rparr>))"
    by (simp add: fetchCurrentOrganizer_def suspendedCache_def get_put mainKey_blockKey poolOf_def)
  have n: "fetchCurrentOrganizer False suspendedCache = Inr None"
    by (simp add: fetchCurrentOrganizer_def suspendedCache_def get_put get_empty mainKey_blockKey
        mainKey_eq)
  have sp: "shouldBlockCurrentOrganizer exampleService
      (Some (CacheValue \<lparr>organizer = Str ''a@sempurna.id'', uniqueAttendees = Some [''u@mail.com'']\<rparr>))
      (Str ''a@sempurna.id'') = Inr False"
    by (simp add: shouldBlockCurrentOrganizer_def exampleService_def)
  have sn: "shouldBlockCurrentOrganizer exampleService None (Str ''a@sempurna.id'') = Inr False"
    by (simp add: shouldBlockCurrentOrganizer_def)
  have b: "suspendedCache (blockKey (Str ''a@sempurna.id'')) = Some (Json (DateString 1000), 24 * 60 * 60)"
    by (simp add: suspendedCache_def rskCacheService_put_def)
  show ?thesis
    using suspension_lifted_by_timestamp [OF p sp n sn b, of 86401001]
      suspension_lifted_by_timestamp [OF p sp n sn b, of 86401000]
    by simp
qed

text \<open>
  C4, as amended. The choice of the organizer in \<^verbatim>\<open>createEvent\<close> first reads the current
  organizer of the category and asks \<^verbatim>\<open>isOrganizerAvailable\<close> for it (lines 166 and 167),
  whether an organizer is passed or not. If the read throws, or the question does, the choice
  ends with that exception and no organizer is used, not even one that was passed. If both
  return, an organizer that is passed (a non-empty string) is used as it is, available or
  not; and when none is passed (the argument is falsy), the current organizer is not usable
  (none is cached, or it is not available) and every candidate of the category is asked and
  is not available, the choice ends without an exception and \<^verbatim>\<open>organizer\<close> is what was
  passed, \<^verbatim>\<open>null\<close> by default: \<^verbatim>\<open>createEvent\<close> goes on to
  \<^verbatim>\<open>this.authorize(organizer)\<close> with it. \<open>c1\<close> is the cache after the current organizer
  was asked, the one the candidates are asked on.
\<close>

theorem selection_signals_nothing:
  "(fetchCurrentOrganizer isPrakerja c = Inl e \<longrightarrow>
      createEvent_organizer this now isPrakerja organizer0 c = (Inl e, c))
   \<and> (fetchCurrentOrganizer isPrakerja c = Inr current \<and>
       isOrganizerAvailable this now (optional_organizer current) c = (Inl e, c1) \<longrightarrow>
      createEvent_organizer this now isPrakerja organizer0 c = (Inl e, c1))
   \<and> (fetchCurrentOrganizer isPrakerja c = Inr current \<and>
       isOrganizerAvailable this now (optional_organizer current) c = (Inr isAvailable, c1) \<and>
       truthy (default_null organizer0) \<longrightarrow>
      createEvent_organizer this now isPrakerja organizer0 c = (Inr (default_null organizer0), c1))
   \<and> (fetchCurrentOrganizer isPrakerja c = Inr current \<and>
       isOrganizerAvailable this now (optional_organizer current) c = (Inr isAvailable, c1) \<and>
       \<not> truthy (default_null organizer0) \<and>
       \<not> (truthy (optional_organizer current) \<and> isAvailable) \<and>
       (\<forall>org \<in> set (candidates this isPrakerja).
          fst (isOrganizerAvailable this now (Str org) c1) = Inr False) \<longrightarrow>
      fst (createEvent_organizer this now isPrakerja organizer0 c) = Inr (default_null organizer0))"
proof (intro conjI impI)
  assume "fetchCurrentOrganizer isPrakerja c = Inl e"
  then show "createEvent_organizer this now isPrakerja organizer0 c = (Inl e, c)"
    by (rule createEvent_organizer_throws(1))
next
  assume "fetchCurrentOrganizer isPrakerja c = Inr current \<and>
       isOrganizerAvailable this now (optional_organizer current) c = (Inl e, c1)"
  then show "createEvent_organizer this now isPrakerja organizer0 c = (Inl e, c1)"
    by (simp add: createEvent_organizer_throws(2))
next
  assume "fetchCurrentOrganizer isPrakerja c = Inr current \<and>
       isOrganizerAvailable this now (optional_organizer current) c = (Inr isAvailable, c1) \<and>
       truthy (default_null organizer0)"
  then show "createEvent_organizer this now isPrakerja organizer0 c = (Inr (default_null organizer0), c1)"
    by (simp add: createEvent_organizer_passed)
next
  assume h: "fetchCurrentOrganizer isPrakerja c = Inr current \<and>
       isOrganizerAvailable this now (optional_organizer current) c = (Inr isAvailable, c1) \<and>
       \<not> truthy (default_null organizer0) \<and>
       \<not> (truthy (optional_organizer current) \<and> isAvailable) \<and>
       (\<forall>org \<in> set (candidates this isPrakerja).
          fst (isOrganizerAvailable this now (Str org) c1) = Inr False)"
  then have complete: "\<forall>org \<in> set (candidates this isPrakerja).
      \<exists>r. fst (isOrganizerAvailable this now (Str org) c1) = Inr r"
    by auto
  have none: "filter (\<lambda>org. fst (isOrganizerAvailable this now (Str org) c1) = Inr True)
      (candidates this isPrakerja) = []"
    using h by (simp add: filter_empty_conv)
  from h have read: "fetchCurrentOrganizer isPrakerja c = Inr current"
    and asked: "isOrganizerAvailable this now (optional_organizer current) c = (Inr isAvailable, c1)"
    and falsy: "\<not> truthy (default_null organizer0)"
    and unusable: "\<not> (truthy (optional_organizer current) \<and> isAvailable)" by simp_all
  show "fst (createEvent_organizer this now isPrakerja organizer0 c) = Inr (default_null organizer0)"
    using createEvent_organizer_from_candidates [OF falsy read asked unusable complete] none by simp
qed

text \<open>
  The theorem on four inputs. With a string that is not JSON under the key of prakerja, the
  choice for prakerja throws at the read and the choice for non-prakerja at the question
  (which reads both categories), each with an organizer passed. With all three candidates of
  prakerja blocked a second ago and no current organizer, the blocked organizer a, passed, is
  the choice, and without an organizer passed the choice is \<^verbatim>\<open>null\<close>.
\<close>

theorem selection_signals_nothing_witness:
  "createEvent_organizer exampleService 2000 True (Str ''a@sempurna.id'') malformedCache =
     (Inl SyntaxError, malformedCache)
   \<and> createEvent_organizer exampleService 2000 False (Str ''c@sempurna.id'') malformedCache =
     (Inl SyntaxError, malformedCache)
   \<and> createEvent_organizer exampleService 2000 True (Str ''a@sempurna.id'') allBlockedCache =
       (Inr (Str ''a@sempurna.id''), allBlockedCache)
   \<and> fst (isOrganizerAvailable exampleService 2000 (Str ''a@sempurna.id'') allBlockedCache) = Inr False
   \<and> fst (isOrganizerAvailable exampleService 2000 (Str ''b@sempurna.id'') allBlockedCache) = Inr False
   \<and> fst (isOrganizerAvailable exampleService 2000 (Str ''d@sempurna.id'') allBlockedCache) = Inr False
   \<and> fst (createEvent_organizer exampleService 2000 True Null allBlockedCache) = Inr Null"
proof -
  have m1: "fetchCurrentOrganizer True malformedCache = Inl SyntaxError"
    by (simp add: malformedCache_def fetchCurrentOrganizer_def get_put)
  have m2: "fetchCurrentOrganizer False malformedCache = Inr None \<and>
      isOrganizerAvailable exampleService 2000 (optional_organizer None) malformedCache =
        (Inl SyntaxError, malformedCache)"
    by (simp add: malformedCache_def fetchCurrentOrganizer_def isOrganizerAvailable_def get_put
        get_empty mainKey_eq)
  have h2: "fetchCurrentOrganizer True allBlockedCache = Inr None"
    by (simp add: allBlockedCache_def eval_simps)
  have h3: "isOrganizerAvailable exampleService 2000 (optional_organizer None) allBlockedCache =
      (Inr True, allBlockedCache)"
    by (simp add: allBlockedCache_def eval_simps)
  have a: "fst (isOrganizerAvailable exampleService 2000 (Str ''a@sempurna.id'') allBlockedCache) = Inr False"
    by (simp add: allBlockedCache_def eval_simps)
  have b: "fst (isOrganizerAvailable exampleService 2000 (Str ''b@sempurna.id'') allBlockedCache) = Inr False"
    by (simp add: allBlockedCache_def eval_simps)
  have d: "fst (isOrganizerAvailable exampleService 2000 (Str ''d@sempurna.id'') allBlockedCache) = Inr False"
    by (simp add: allBlockedCache_def eval_simps)
  have h5: "\<forall>org \<in> set (candidates exampleService True).
      fst (isOrganizerAvailable exampleService 2000 (Str org) allBlockedCache) = Inr False"
    using a b d by (simp add: candidates_def exampleService_def)
  note inst = selection_signals_nothing [where this = exampleService and now = 2000]
  have "createEvent_organizer exampleService 2000 True (Str ''a@sempurna.id'') malformedCache =
     (Inl SyntaxError, malformedCache)"
    using inst [where isPrakerja = True and c = malformedCache and e = SyntaxError
        and ?organizer0.0 = "Str ''a@sempurna.id''", THEN conjunct1] m1 by simp
  moreover have "createEvent_organizer exampleService 2000 False (Str ''c@sempurna.id'') malformedCache =
     (Inl SyntaxError, malformedCache)"
    using inst [where isPrakerja = False and c = malformedCache and e = SyntaxError
        and current = None and ?c1.0 = malformedCache
        and ?organizer0.0 = "Str ''c@sempurna.id''", THEN conjunct2, THEN conjunct1] m2 by simp
  moreover have "createEvent_organizer exampleService 2000 True (Str ''a@sempurna.id'') allBlockedCache =
       (Inr (Str ''a@sempurna.id''), allBlockedCache)"
    using inst [where isPrakerja = True and c = allBlockedCache and current = None
        and ?c1.0 = allBlockedCache and isAvailable = True
        and ?organizer0.0 = "Str ''a@sempurna.id''", THEN conjunct2, THEN conjunct2, THEN conjunct1]
      h2 h3 by simp
  moreover have "fst (createEvent_organizer exampleService 2000 True Null allBlockedCache) = Inr Null"
    using inst [where isPrakerja = True and c = allBlockedCache and current = None
        and ?c1.0 = allBlockedCache and isAvailable = True
        and ?organizer0.0 = Null, THEN conjunct2, THEN conjunct2, THEN conjunct2]
      h2 h3 h5 by simp
  ultimately show ?thesis using a b d by simp
qed

text \<open>
  C4 as it is written fails: on that cache no candidate is available, and the choice returns
  \<^verbatim>\<open>null\<close> as the organizer, with the cache unchanged, where the claim has it signal
  that no organizer is available; and it returns the organizer passed when that one is not
  available either.
\<close>

theorem no_organizer_available_counterexample:
  "createEvent_organizer exampleService 2000 True Null allBlockedCache = (Inr Null, allBlockedCache)
   \<and> fetchAvailableOrganizers exampleService 2000 True None allBlockedCache = (Inr [], allBlockedCache)
   \<and> fetchCurrentOrganizer True allBlockedCache = Inr None
   \<and> fst (isOrganizerAvailable exampleService 2000 (Str ''a@sempurna.id'') allBlockedCache) = Inr False
   \<and> createEvent_organizer exampleService 2000 True (Str ''a@sempurna.id'') allBlockedCache =
       (Inr (Str ''a@sempurna.id''), allBlockedCache)"
  by (simp add: createEvent_organizer_def fetchAvailableOrganizers_def candidates_def
      allBlockedCache_def eval_simps)

text \<open>
  C5, as amended. \<^verbatim>\<open>blockOrganizer\<close> writes the blocked date first and then reads the
  entries of both categories, prakerja first. If one of the two reads throws,
  \<^verbatim>\<open>blockOrganizer\<close> throws it after the blocked date is written and deletes nothing,
  whoever is current. If both reads return and the organizer is a non-empty string: when it
  is current for prakerja, the entry of prakerja is deleted; when it is not current for
  prakerja and is current for non-prakerja, the entry of non-prakerja is deleted. In both
  cases nothing else changes.
\<close>

theorem blockOrganizer_first_match_or_throw:
  "(rskCacheService_get c (mainKey True) = Some (Json (CacheValue d)) \<and> organizer d = Str s \<and>
      s \<noteq> [] \<and> fetchCurrentOrganizer False c = Inr n \<longrightarrow>
      blockOrganizer now (Str s) c =
        (Inr (), rskCacheService_delete (blocked now (Str s) c) (mainKey True)))
   \<and> (fetchCurrentOrganizer True c = Inr p \<and> optional_organizer p \<noteq> Str s \<and>
      rskCacheService_get c (mainKey False) = Some (Json (CacheValue d)) \<and> organizer d = Str s \<and>
      s \<noteq> [] \<longrightarrow>
      blockOrganizer now (Str s) c =
        (Inr (), rskCacheService_delete (blocked now (Str s) c) (mainKey False)))
   \<and> (fetchCurrentOrganizer True c = Inl e \<or>
       (\<exists>p. fetchCurrentOrganizer True c = Inr p) \<and> fetchCurrentOrganizer False c = Inl e \<longrightarrow>
      blockOrganizer now org c = (Inl e, blocked now org c))"
proof (intro conjI impI)
  assume h: "rskCacheService_get c (mainKey True) = Some (Json (CacheValue d)) \<and> organizer d = Str s \<and>
      s \<noteq> [] \<and> fetchCurrentOrganizer False c = Inr n"
  then have p: "fetchCurrentOrganizer True c = Inr (Some (CacheValue d))"
    by (simp add: fetchCurrentOrganizer_CacheValue)
  from h have n: "fetchCurrentOrganizer False c = Inr n" by simp
  show "blockOrganizer now (Str s) c =
        (Inr (), rskCacheService_delete (blocked now (Str s) c) (mainKey True))"
    using blockOrganizer_returns [OF p n, of now "Str s"] h by simp
next
  assume h: "fetchCurrentOrganizer True c = Inr p \<and> optional_organizer p \<noteq> Str s \<and>
      rskCacheService_get c (mainKey False) = Some (Json (CacheValue d)) \<and> organizer d = Str s \<and>
      s \<noteq> []"
  then have n: "fetchCurrentOrganizer False c = Inr (Some (CacheValue d))"
    by (simp add: fetchCurrentOrganizer_CacheValue)
  from h have p: "fetchCurrentOrganizer True c = Inr p" by simp
  show "blockOrganizer now (Str s) c =
        (Inr (), rskCacheService_delete (blocked now (Str s) c) (mainKey False))"
    using blockOrganizer_returns [OF p n, of now "Str s"] h by auto
next
  assume "fetchCurrentOrganizer True c = Inl e \<or>
       (\<exists>p. fetchCurrentOrganizer True c = Inr p) \<and> fetchCurrentOrganizer False c = Inl e"
  then show "blockOrganizer now org c = (Inl e, blocked now org c)"
    by (rule blockOrganizer_throws)
qed

text \<open>
  The theorem for organizer a, current in both categories; for organizer c, current for
  non-prakerja only; and for organizer a, current for prakerja, when the entry of
  non-prakerja is not JSON: the call throws and the entry of prakerja is still there.
\<close>

theorem blockOrganizer_first_match_or_throw_witness:
  "blockOrganizer 5000 (Str ''a@sempurna.id'') bothExhaustedCache =
     (Inr (), rskCacheService_delete (blocked 5000 (Str ''a@sempurna.id'') bothExhaustedCache) (mainKey True))
   \<and> blockOrganizer 5000 (Str ''c@sempurna.id'') exhaustedCache =
     (Inr (), rskCacheService_delete (blocked 5000 (Str ''c@sempurna.id'') exhaustedCache) (mainKey False))
   \<and> blockOrganizer 5000 (Str ''a@sempurna.id'') currentAndMalformedCache =
     (Inl SyntaxError, blocked 5000 (Str ''a@sempurna.id'') currentAndMalformedCache)
   \<and> rskCacheService_get (blocked 5000 (Str ''a@sempurna.id'') currentAndMalformedCache) (mainKey True) =
     Some (poolOf ''a@sempurna.id'' [''u@mail.com''])"
proof -
  have p1: "rskCacheService_get bothExhaustedCache (mainKey True) =
      Some (Json (CacheValue \<lparr>organizer = Str ''a@sempurna.id'',
        uniqueAttendees = Some [''u@mail.com'', ''v@mail.com'']\<rparr>))"
    by (simp add: bothExhaustedCache_def get_put mainKey_eq poolOf_def)
  have n1: "fetchCurrentOrganizer False bothExhaustedCache =
      Inr (Some (CacheValue \<lparr>organizer = Str ''a@sempurna.id'',
        uniqueAttendees = Some [''w@mail.com'', ''x@mail.com'']\<rparr>))"
    by (simp add: fetchCurrentOrganizer_def bothExhaustedCache_def get_put mainKey_eq poolOf_def)
  have p2: "fetchCurrentOrganizer True exhaustedCache = Inr None"
    by (simp add: fetchCurrentOrganizer_def exhaustedCache_def get_put get_empty mainKey_eq)
  have n2: "rskCacheService_get exhaustedCache (mainKey False) =
      Some (Json (CacheValue \<lparr>organizer = Str ''c@sempurna.id'',
        uniqueAttendees = Some [''u@mail.com'', ''v@mail.com'']\<rparr>))"
    by (simp add: exhaustedCache_def get_put poolOf_def)
  have p3: "(\<exists>p. fetchCurrentOrganizer True currentAndMalformedCache = Inr p) \<and>
      fetchCurrentOrganizer False currentAndMalformedCache = Inl SyntaxError"
    by (simp add: fetchCurrentOrganizer_def currentAndMalformedCache_def get_put mainKey_eq poolOf_def)
  have stays: "rskCacheService_get (blocked 5000 (Str ''a@sempurna.id'') currentAndMalformedCache)
      (mainKey True) = Some (poolOf ''a@sempurna.id'' [''u@mail.com''])"
    by (simp add: get_blocked mainKey_blockKey currentAndMalformedCache_def get_put mainKey_eq)
  show ?thesis
    using blockOrganizer_first_match_or_throw [THEN conjunct1, rule_format,
        where c = bothExhaustedCache and s = "''a@sempurna.id''" and now = 5000] p1 n1
      blockOrganizer_first_match_or_throw [THEN conjunct2, THEN conjunct1, rule_format,
        where c = exhaustedCache and p = None and s = "''c@sempurna.id''" and now = 5000] p2 n2
      blockOrganizer_first_match_or_throw [THEN conjunct2, THEN conjunct2, rule_format,
        where c = currentAndMalformedCache and e = SyntaxError and now = 5000
          and org = "Str ''a@sempurna.id''"] p3 stays
    by simp
qed

text \<open>
  C5 as it is written fails at two inputs. When the organizer is current in both
  categories, the second test is the \<^verbatim>\<open>else\<close> of the first, so the entry of prakerja is
  deleted and the entry of non-prakerja stays. And when the state of a category was stored
  without an organizer (\<^verbatim>\<open>null\<close>, as \<^verbatim>\<open>createEvent\<close> passes it on when it found none),
  \<^verbatim>\<open>blockOrganizer\<close> for \<^verbatim>\<open>null\<close> leaves it: both tests ask for a truthy organizer.
\<close>

theorem blockOrganizer_deletes_each_counterexample:
  "rskCacheService_get bothExhaustedCache (mainKey True) =
     Some (poolOf ''a@sempurna.id'' [''u@mail.com'', ''v@mail.com''])
   \<and> rskCacheService_get bothExhaustedCache (mainKey False) =
     Some (poolOf ''a@sempurna.id'' [''w@mail.com'', ''x@mail.com''])
   \<and> fst (blockOrganizer 5000 (Str ''a@sempurna.id'') bothExhaustedCache) = Inr ()
   \<and> rskCacheService_get (snd (blockOrganizer 5000 (Str ''a@sempurna.id'') bothExhaustedCache))
        (mainKey True) = None
   \<and> rskCacheService_get (snd (blockOrganizer 5000 (Str ''a@sempurna.id'') bothExhaustedCache))
        (mainKey False) = Some (poolOf ''a@sempurna.id'' [''w@mail.com'', ''x@mail.com''])
   \<and> rskCacheService_get noOrganizerCache (mainKey True) =
     Some (Json (CacheValue \<lparr>organizer = Null, uniqueAttendees = Some [''u@mail.com'']\<rparr>))
   \<and> rskCacheService_get (snd (blockOrganizer 5000 Null noOrganizerCache)) (mainKey True) =
     Some (Json (CacheValue \<lparr>organizer = Null, uniqueAttendees = Some [''u@mail.com'']\<rparr>))"
  by (simp add: blockOrganizer_def fetchCurrentOrganizer_def bothExhaustedCache_def
      noOrganizerCache_def get_put get_delete get_empty mainKey_eq blockKey_mainKey mainKey_blockKey
      poolOf_def Let_def serializeCacheValue_def mainKey_True)

text \<open>
  C6. No organizer is passed and the current organizer of the category is not usable, so the
  candidates are asked, on the cache \<open>c1\<close> that asking the current organizer left. If the
  candidates before \<open>org\<close> in the configured list are not available on \<open>c1\<close> and
  \<open>org\<close>, a non-empty string, is, then \<open>org\<close> is chosen, whatever the answers for the
  candidates after it (each of them is asked, and has to return).
\<close>

theorem first_available_candidate_is_chosen:
  assumes "\<not> truthy (default_null organizer0)"
    and "fetchCurrentOrganizer isPrakerja c = Inr current"
    and "isOrganizerAvailable this now (optional_organizer current) c = (Inr isAvailable, c1)"
    and "\<not> (truthy (optional_organizer current) \<and> isAvailable)"
    and "candidates this isPrakerja = before @ org # after"
    and "\<forall>b \<in> set before. fst (isOrganizerAvailable this now (Str b) c1) = Inr False"
    and "fst (isOrganizerAvailable this now (Str org) c1) = Inr True"
    and "\<forall>a \<in> set after. \<exists>r. fst (isOrganizerAvailable this now (Str a) c1) = Inr r"
    and "org \<noteq> []"
  shows "fst (createEvent_organizer this now isPrakerja organizer0 c) = Inr (Str org)"
proof -
  have complete: "\<forall>org \<in> set (candidates this isPrakerja).
      \<exists>r. fst (isOrganizerAvailable this now (Str org) c1) = Inr r"
    using assms(5-8) by auto
  have "filter (\<lambda>org. fst (isOrganizerAvailable this now (Str org) c1) = Inr True) before = []"
    using assms(6) by (simp add: filter_empty_conv)
  then have "filter (\<lambda>org. fst (isOrganizerAvailable this now (Str org) c1) = Inr True)
      (candidates this isPrakerja) =
      org # filter (\<lambda>org. fst (isOrganizerAvailable this now (Str org) c1) = Inr True) after"
    using assms(5,7) by simp
  then show ?thesis
    using createEvent_organizer_from_candidates [OF assms(1-4) complete] assms(9) by simp
qed

text \<open>
  The theorem for candidates a, b, d with a current and at the limit: asking a blocks it and
  deletes the state; b and d are both available, and b, the earlier one, is chosen.
\<close>

theorem first_available_candidate_is_chosen_witness:
  "candidates exampleService True = [''a@sempurna.id''] @ ''b@sempurna.id'' # [''d@sempurna.id'']
   \<and> fst (isOrganizerAvailable exampleService 2000 (Str ''a@sempurna.id'') exhaustedPrakerjaCache) = Inr False
   \<and> fst (isOrganizerAvailable exampleService 2000 (Str ''b@sempurna.id'') exhaustedPrakerjaCache) = Inr True
   \<and> fst (isOrganizerAvailable exampleService 2000 (Str ''d@sempurna.id'') exhaustedPrakerjaCache) = Inr True
   \<and> fst (createEvent_organizer exampleService 2000 True Null exhaustedPrakerjaCache) =
       Inr (Str ''b@sempurna.id'')"
proof -
  let ?c1 = "rskCacheService_delete (blocked 2000 (Str ''a@sempurna.id'') exhaustedPrakerjaCache) (mainKey True)"
  have h1: "\<not> truthy (default_null Null)" by simp
  have h2: "fetchCurrentOrganizer True exhaustedPrakerjaCache =
      Inr (Some (CacheValue \<lparr>organizer = Str ''a@sempurna.id'',
        uniqueAttendees = Some [''u@mail.com'', ''v@mail.com'']\<rparr>))"
    by (simp add: exhaustedPrakerjaCache_def eval_simps)
  have h3: "isOrganizerAvailable exampleService 2000
      (optional_organizer (Some (CacheValue \<lparr>organizer = Str ''a@sempurna.id'',
        uniqueAttendees = Some [''u@mail.com'', ''v@mail.com'']\<rparr>))) exhaustedPrakerjaCache =
      (Inr False, ?c1)"
    by (simp add: exhaustedPrakerjaCache_def eval_simps blocked_def)
  have h4: "\<not> (truthy (optional_organizer (Some (CacheValue \<lparr>organizer = Str ''a@sempurna.id'',
        uniqueAttendees = Some [''u@mail.com'', ''v@mail.com'']\<rparr>))) \<and> False)"
    by simp
  have h5: "candidates exampleService True = [''a@sempurna.id''] @ ''b@sempurna.id'' # [''d@sempurna.id'']"
    by (simp add: candidates_def exampleService_def)
  have a: "fst (isOrganizerAvailable exampleService 2000 (Str ''a@sempurna.id'') ?c1) = Inr False"
    by (simp add: exhaustedPrakerjaCache_def eval_simps)
  have b: "fst (isOrganizerAvailable exampleService 2000 (Str ''b@sempurna.id'') ?c1) = Inr True"
    by (simp add: exhaustedPrakerjaCache_def eval_simps)
  have d: "fst (isOrganizerAvailable exampleService 2000 (Str ''d@sempurna.id'') ?c1) = Inr True"
    by (simp add: exhaustedPrakerjaCache_def eval_simps)
  have h6: "\<forall>b \<in> set [''a@sempurna.id'']. fst (isOrganizerAvailable exampleService 2000 (Str b) ?c1) = Inr False"
    using a by simp
  have h8: "\<forall>a \<in> set [''d@sempurna.id'']. \<exists>r. fst (isOrganizerAvailable exampleService 2000 (Str a) ?c1) = Inr r"
    using d by auto
  have h9: "''b@sempurna.id'' \<noteq> []" by simp
  have "fst (createEvent_organizer exampleService 2000 True Null exhaustedPrakerjaCache) =
       Inr (Str ''b@sempurna.id'')"
    using first_available_candidate_is_chosen [OF h1 h2 h3 h4 h5 h6 b h8 h9] .
  moreover have "fst (isOrganizerAvailable exampleService 2000 (Str ''a@sempurna.id'') exhaustedPrakerjaCache) = Inr False"
    by (simp add: exhaustedPrakerjaCache_def eval_simps blocked_def)
  moreover have "fst (isOrganizerAvailable exampleService 2000 (Str ''b@sempurna.id'') exhaustedPrakerjaCache) = Inr True"
    by (simp add: exhaustedPrakerjaCache_def eval_simps)
  moreover have "fst (isOrganizerAvailable exampleService 2000 (Str ''d@sempurna.id'') exhaustedPrakerjaCache) = Inr True"
    by (simp add: exhaustedPrakerjaCache_def eval_simps)
  ultimately show ?thesis using h5 by simp
qed




text \<open>
  C8. An address of the organization's own domain is never among the stored attendees of a
  category. The code keeps such an address out by the test
  \<^verbatim>\<open>!email.includes('sempurna.com')\<close> (lines 372 and 384; the comment of line 371
  reads \<^verbatim>\<open>Add the email to uniqueAttendees if it's outside RSK domain\<close>), and that test
  compares letter by letter: of two spellings of the same address the lower-case one is left
  out and the other is stored, by the branch that starts a new array and by the one that adds
  to the stored array.
\<close>

theorem case_variant_addresses_are_persisted:
  "isExternal \<lparr>email = ''Bob@Sempurna.com''\<rparr>
   \<and> isExternal \<lparr>email = ''X@SEMPURNA.COM''\<rparr>
   \<and> rskCacheService_get
        (snd (cacheOrganizerAndAttendee exampleService
           [\<lparr>email = ''bob@sempurna.com''\<rparr>, \<lparr>email = ''Bob@Sempurna.com''\<rparr>]
           (Str ''a@sempurna.id'') True Map.empty))
        (mainKey True) = Some (poolOf ''a@sempurna.id'' [''Bob@Sempurna.com''])
   \<and> rskCacheService_get
        (snd (cacheOrganizerAndAttendee exampleService
           [\<lparr>email = ''x@sempurna.com''\<rparr>, \<lparr>email = ''X@SEMPURNA.COM''\<rparr>]
           (Str ''a@sempurna.id'') True
           (rskCacheService_put Map.empty (mainKey True)
              (poolOf ''a@sempurna.id'' [''u@mail.com'']) oneMonth)))
        (mainKey True) = Some (poolOf ''a@sempurna.id'' [''u@mail.com'', ''X@SEMPURNA.COM''])"
  by (simp add: cacheOrganizerAndAttendee_def get_put get_empty poolOf_def exampleService_def
      serializeCacheValue_def fromPayload_def Let_def isExternal_def addExternal_def new_Set_def
      Set_add_def)

text \<open>
  What the test does keep out. Start from a cache in which no cache value counts an address
  containing \<^verbatim>\<open>sempurna.com\<close> in these very letters (the empty cache is one). After any
  sequence of calls of \<^verbatim>\<open>cacheOrganizerAndAttendee\<close>, for any organizers and categories,
  the attendees stored for a category hold no address that contains \<^verbatim>\<open>sempurna.com\<close> so
  spelled, and so none that ends in \<^verbatim>\<open>@sempurna.com\<close>.
\<close>

theorem internal_addresses_never_persisted:
  assumes "noInternalAttendees c"
    and "rskCacheService_get (recordAssignments this calls c) (mainKey isPrakerja) =
      Some (Json (CacheValue d))"
    and "uniqueAttendees d = Some atts"
  shows "\<forall>e \<in> set atts. \<not> str_includes e ''sempurna.com'' \<and> \<not> suffix ''@sempurna.com'' e"
proof
  fix e assume e: "e \<in> set atts"
  have "noInternalAttendees (recordAssignments this calls c)"
    using assms(1) by (rule noInternalAttendees_recordAssignments)
  with assms(2,3) e have no: "\<not> str_includes e ''sempurna.com''"
    unfolding noInternalAttendees_def by blast
  have "\<not> suffix ''@sempurna.com'' e"
  proof
    assume "suffix ''@sempurna.com'' e"
    then obtain xs where "e = xs @ ''@sempurna.com''" by (auto simp add: suffix_def)
    then have "e = (xs @ ''@'') @ ''sempurna.com'' @ []" by simp
    then have "str_includes e ''sempurna.com''" unfolding includes_iff by blast
    with no show False by simp
  qed
  with no show "\<not> str_includes e ''sempurna.com'' \<and> \<not> suffix ''@sempurna.com'' e" by simp
qed

text \<open>
  The theorem on two calls for the same organizer, the first on the empty cache (a new
  array), the second adding to it; each brings one address of the organization.
\<close>

theorem internal_addresses_never_persisted_witness:
  "rskCacheService_get
     (recordAssignments exampleService
        [([\<lparr>email = ''v@mail.com''\<rparr>, \<lparr>email = ''w@sempurna.com''\<rparr>], Str ''a@sempurna.id'', True),
         ([\<lparr>email = ''x@sempurna.com''\<rparr>, \<lparr>email = ''y@mail.com''\<rparr>], Str ''a@sempurna.id'', True)]
        Map.empty)
     (mainKey True) = Some (poolOf ''a@sempurna.id'' [''v@mail.com'', ''y@mail.com''])
   \<and> \<not> str_includes ''v@mail.com'' ''sempurna.com'' \<and> \<not> suffix ''@sempurna.com'' ''v@mail.com''
   \<and> \<not> str_includes ''y@mail.com'' ''sempurna.com'' \<and> \<not> suffix ''@sempurna.com'' ''y@mail.com''"
proof -
  have start: "noInternalAttendees Map.empty"
    by (simp add: noInternalAttendees_def get_empty)
  have after: "rskCacheService_get
     (recordAssignments exampleService
        [([\<lparr>email = ''v@mail.com''\<rparr>, \<lparr>email = ''w@sempurna.com''\<rparr>], Str ''a@sempurna.id'', True),
         ([\<lparr>email = ''x@sempurna.com''\<rparr>, \<lparr>email = ''y@mail.com''\<rparr>], Str ''a@sempurna.id'', True)]
        Map.empty)
     (mainKey True) =
     Some (Json (CacheValue \<lparr>organizer = Str ''a@sempurna.id'',
        uniqueAttendees = Some [''v@mail.com'', ''y@mail.com'']\<rparr>))"
    by (simp add: cacheOrganizerAndAttendee_def get_put get_empty exampleService_def
        serializeCacheValue_def fromPayload_def Let_def isExternal_def addExternal_def
        new_Set_def Set_add_def)
  from internal_addresses_never_persisted [OF start after] after
  show ?thesis by (simp add: poolOf_def)
qed

text \<open>
  C9. An attendee counts as external exactly when \<^verbatim>\<open>sempurna.com\<close> occurs nowhere in the
  address, whatever stands before or after it: the domain part of the address is not looked
  at. So an address that contains \<^verbatim>\<open>sempurna.com\<close> is never added by
  \<^verbatim>\<open>cacheOrganizerAndAttendee\<close>: if it is among the stored attendees after a call, it was
  among them before.
\<close>

theorem classification_is_substring_containment:
  "(isExternal a = (\<nexists>xs ys. email a = xs @ ''sempurna.com'' @ ys))
   \<and> (cacheOrganizerAndAttendee this attendees organizerReq isPrakerja c = (r, c') \<and>
       rskCacheService_get c' (mainKey isPrakerja) = Some (Json (CacheValue d')) \<and>
       uniqueAttendees d' = Some atts' \<and> e \<in> set atts' \<and> str_includes e ''sempurna.com'' \<longrightarrow>
       (\<exists>d atts. rskCacheService_get c (mainKey isPrakerja) = Some (Json (CacheValue d)) \<and>
          uniqueAttendees d = Some atts \<and> e \<in> set atts))"
proof
  show "isExternal a = (\<nexists>xs ys. email a = xs @ ''sempurna.com'' @ ys)"
    by (simp add: isExternal_def includes_iff)
next
  show "cacheOrganizerAndAttendee this attendees organizerReq isPrakerja c = (r, c') \<and>
       rskCacheService_get c' (mainKey isPrakerja) = Some (Json (CacheValue d')) \<and>
       uniqueAttendees d' = Some atts' \<and> e \<in> set atts' \<and> str_includes e ''sempurna.com'' \<longrightarrow>
       (\<exists>d atts. rskCacheService_get c (mainKey isPrakerja) = Some (Json (CacheValue d)) \<and>
          uniqueAttendees d = Some atts \<and> e \<in> set atts)"
  proof
    assume h: "cacheOrganizerAndAttendee this attendees organizerReq isPrakerja c = (r, c') \<and>
       rskCacheService_get c' (mainKey isPrakerja) = Some (Json (CacheValue d')) \<and>
       uniqueAttendees d' = Some atts' \<and> e \<in> set atts' \<and> str_includes e ''sempurna.com''"
    then have "(\<exists>d atts. rskCacheService_get c (mainKey isPrakerja) = Some (Json (CacheValue d)) \<and>
            uniqueAttendees d = Some atts \<and> e \<in> set atts)
       \<or> (mainKey isPrakerja = mainKey isPrakerja \<and> (\<exists>a \<in> set attendees. isExternal a \<and> e = email a))"
      using cacheOrganizerAndAttendee_attendees_from [of this attendees organizerReq isPrakerja c r c'
          "mainKey isPrakerja" d' atts' e]
      by blast
    moreover have "\<not> (\<exists>a \<in> set attendees. isExternal a \<and> e = email a)"
      using h by (auto simp add: isExternal_def)
    ultimately show "\<exists>d atts. rskCacheService_get c (mainKey isPrakerja) = Some (Json (CacheValue d)) \<and>
          uniqueAttendees d = Some atts \<and> e \<in> set atts"
      by blast
  qed
qed

text \<open>
  The theorem at an address with \<^verbatim>\<open>sempurna.com\<close> as its local part, of domain
  \<^verbatim>\<open>gmail.com\<close>, and at one of the foreign domain \<^verbatim>\<open>sempurna.com.evil.org\<close>: neither is
  external, and a call with both stores neither.
\<close>

theorem classification_is_substring_containment_witness:
  "\<not> isExternal \<lparr>email = ''sempurna.com@gmail.com''\<rparr>
   \<and> \<not> isExternal \<lparr>email = ''x@sempurna.com.evil.org''\<rparr>
   \<and> isExternal \<lparr>email = ''x@sempurna.co''\<rparr>
   \<and> cacheOrganizerAndAttendee exampleService
        [\<lparr>email = ''sempurna.com@gmail.com''\<rparr>, \<lparr>email = ''x@sempurna.com.evil.org''\<rparr>,
         \<lparr>email = ''x@sempurna.co''\<rparr>]
        (Str ''a@sempurna.id'') True Map.empty =
      (Inr (Str ''a@sempurna.id''),
       rskCacheService_put Map.empty (mainKey True)
         (poolOf ''a@sempurna.id'' [''x@sempurna.co'']) oneMonth)
   \<and> ''sempurna.com@gmail.com'' \<notin> set [''x@sempurna.co'']"
proof -
  have local: "email \<lparr>email = ''sempurna.com@gmail.com''\<rparr> = [] @ ''sempurna.com'' @ ''@gmail.com''"
    by simp
  have foreign: "email \<lparr>email = ''x@sempurna.com.evil.org''\<rparr> = ''x@'' @ ''sempurna.com'' @ ''.evil.org''"
    by simp
  have call: "cacheOrganizerAndAttendee exampleService
        [\<lparr>email = ''sempurna.com@gmail.com''\<rparr>, \<lparr>email = ''x@sempurna.com.evil.org''\<rparr>,
         \<lparr>email = ''x@sempurna.co''\<rparr>]
        (Str ''a@sempurna.id'') True Map.empty =
      (Inr (Str ''a@sempurna.id''),
       rskCacheService_put Map.empty (mainKey True)
         (poolOf ''a@sempurna.id'' [''x@sempurna.co'']) oneMonth)"
    by (simp add: cacheOrganizerAndAttendee_def get_empty serializeCacheValue_def fromPayload_def
        Let_def isExternal_def poolOf_def)
  have after: "rskCacheService_get (rskCacheService_put Map.empty (mainKey True)
         (poolOf ''a@sempurna.id'' [''x@sempurna.co'']) oneMonth) (mainKey True) =
       Some (Json (CacheValue \<lparr>organizer = Str ''a@sempurna.id'', uniqueAttendees = Some [''x@sempurna.co'']\<rparr>))"
    by (simp add: get_put poolOf_def)
  have "\<not> isExternal \<lparr>email = ''sempurna.com@gmail.com''\<rparr>"
    using classification_is_substring_containment [THEN conjunct1,
        of "\<lparr>email = ''sempurna.com@gmail.com''\<rparr>"] local by blast
  moreover have "\<not> isExternal \<lparr>email = ''x@sempurna.com.evil.org''\<rparr>"
    using classification_is_substring_containment [THEN conjunct1,
        of "\<lparr>email = ''x@sempurna.com.evil.org''\<rparr>"] foreign by blast
  moreover have "isExternal \<lparr>email = ''x@sempurna.co''\<rparr>"
    by (simp add: isExternal_def)
  moreover have "''sempurna.com@gmail.com'' \<notin> set [''x@sempurna.co'']"
  proof
    assume "''sempurna.com@gmail.com'' \<in> set [''x@sempurna.co'']"
    moreover have "str_includes ''sempurna.com@gmail.com'' ''sempurna.com''" by simp
    ultimately have "\<exists>d atts. rskCacheService_get Map.empty (mainKey True) = Some (Json (CacheValue d)) \<and>
          uniqueAttendees d = Some atts \<and> ''sempurna.com@gmail.com'' \<in> set atts"
      using classification_is_substring_containment [THEN conjunct2, rule_format,
          of exampleService _ _ True Map.empty _ _ _ "[''x@sempurna.co'']" "''sempurna.com@gmail.com''"]
        call after
      by simp
    then show False by (simp add: get_empty)
  qed
  ultimately show ?thesis using call by blast
qed

text \<open>
  C10. The limit is tested once, on the stored array, before anything is added. When the
  stored organizer is the requested one (a non-empty string) and fewer attendees than the
  limit are stored, the call stores the union of the stored addresses and all external
  addresses of the new attendees, each once; its size is at most the stored size plus the
  number of new attendees, and nothing holds it to the limit.
\<close>

theorem cacheOrganizerAndAttendee_merges_whole_batch:
  assumes "rskCacheService_get c (mainKey isPrakerja) =
      Some (Json (CacheValue \<lparr>organizer = Str org, uniqueAttendees = Some atts\<rparr>))"
    and "org \<noteq> []"
    and "int (length atts) < externalAttendeesLimit this"
  shows "cacheOrganizerAndAttendee this attendees (Str org) isPrakerja c =
      (Inr (Str org),
       rskCacheService_put c (mainKey isPrakerja)
         (Json (CacheValue \<lparr>organizer = Str org,
            uniqueAttendees = Some (addExternal (new_Set atts) attendees)\<rparr>)) oneMonth)
    \<and> set (addExternal (new_Set atts) attendees) =
        set atts \<union> email ` {a \<in> set attendees. isExternal a}
    \<and> length (addExternal (new_Set atts) attendees) =
        card (set atts \<union> email ` {a \<in> set attendees. isExternal a})
    \<and> length (addExternal (new_Set atts) attendees) \<le> length atts + length attendees"
proof -
  have "cacheOrganizerAndAttendee this attendees (Str org) isPrakerja c =
      (Inr (Str org),
       rskCacheService_put c (mainKey isPrakerja)
         (Json (CacheValue \<lparr>organizer = Str org,
            uniqueAttendees = Some (addExternal (new_Set atts) attendees)\<rparr>)) oneMonth)"
    using cacheOrganizerAndAttendee_merge [OF assms(1), of "Str org" atts this attendees] assms(2,3)
    by simp
  moreover have "set (addExternal (new_Set atts) attendees) =
        set atts \<union> email ` {a \<in> set attendees. isExternal a}"
    by (simp add: set_addExternal set_new_Set)
  moreover have "length (addExternal (new_Set atts) attendees) =
        card (set atts \<union> email ` {a \<in> set attendees. isExternal a})"
    using length_addExternal [OF distinct_new_Set, of atts attendees] by (simp add: set_new_Set)
  moreover have "length (addExternal (new_Set atts) attendees) \<le> length atts + length attendees"
    using length_addExternal_le [of "new_Set atts" attendees] length_new_Set [of atts] by simp
  ultimately show ?thesis by blast
qed

text \<open>
  The theorem with one address stored under a limit of two and three new external
  attendees: four addresses are stored, two more than the limit.
\<close>

theorem cacheOrganizerAndAttendee_merges_whole_batch_witness:
  "cacheOrganizerAndAttendee exampleService
      [\<lparr>email = ''v@mail.com''\<rparr>, \<lparr>email = ''w@mail.com''\<rparr>, \<lparr>email = ''x@mail.com''\<rparr>]
      (Str ''a@sempurna.id'') True
      (rskCacheService_put Map.empty (mainKey True)
         (poolOf ''a@sempurna.id'' [''u@mail.com'']) oneMonth) =
     (Inr (Str ''a@sempurna.id''),
      rskCacheService_put
        (rskCacheService_put Map.empty (mainKey True)
           (poolOf ''a@sempurna.id'' [''u@mail.com'']) oneMonth)
        (mainKey True)
        (poolOf ''a@sempurna.id'' [''u@mail.com'', ''v@mail.com'', ''w@mail.com'', ''x@mail.com''])
        oneMonth)
   \<and> int (length [''u@mail.com'']) < externalAttendeesLimit exampleService
   \<and> externalAttendeesLimit exampleService
       < int (length [''u@mail.com'', ''v@mail.com'', ''w@mail.com'', ''x@mail.com''])"
proof -
  have stored: "rskCacheService_get
      (rskCacheService_put Map.empty (mainKey True)
         (poolOf ''a@sempurna.id'' [''u@mail.com'']) oneMonth) (mainKey True) =
      Some (Json (CacheValue
        \<lparr>organizer = Str ''a@sempurna.id'', uniqueAttendees = Some [''u@mail.com'']\<rparr>))"
    by (simp add: get_put poolOf_def)
  have below: "int (length [''u@mail.com'']) < externalAttendeesLimit exampleService"
    by (simp add: exampleService_def)
  have merged: "addExternal (new_Set [''u@mail.com''])
      [\<lparr>email = ''v@mail.com''\<rparr>, \<lparr>email = ''w@mail.com''\<rparr>, \<lparr>email = ''x@mail.com''\<rparr>] =
      [''u@mail.com'', ''v@mail.com'', ''w@mail.com'', ''x@mail.com'']"
    by (simp add: addExternal_def new_Set_def Set_add_def isExternal_def)
  show ?thesis
    using cacheOrganizerAndAttendee_merges_whole_batch [OF stored _ below,
        of "[\<lparr>email = ''v@mail.com''\<rparr>, \<lparr>email = ''w@mail.com''\<rparr>, \<lparr>email = ''x@mail.com''\<rparr>]"]
      merged below
    by (simp add: poolOf_def exampleService_def)
qed

end
